theory Spec2Isabelle
  imports Complex_Main "HOL-Library.AList"
begin

section \<open>The phase-parallel test scheduler of CIME (CIME/test\_scheduler.py)\<close>

text \<open>
  A shallow embedding of the class \<open>TestScheduler\<close>. The object \<open>self\<close> is a record
  that every method takes and returns. Everything the scheduler reaches outside of
  test\_scheduler.py (subprocesses, the case XML files, the \<open>TestStatus\<close> class of
  CIME.test\_status, \<open>parse_test_name\<close> of CIME.utils) is a field of the record
  \<open>externals\<close>: the theorems hold for every value of these fields.
\<close>

subsection \<open>Phases, statuses, exceptions\<close>

text \<open>
  Phases and statuses are Python strings. The constructors carry the names of the
  constants of the source; \<open>OTHER_PHASE\<close> and \<open>OTHER_STATUS\<close> stand for every other
  string (a phase of the status file that the scheduler does not manage, such as a
  namelist comparison, or a status that is none of the three constants).
\<close>

datatype phase =
    TEST_START
  | CREATE_NEWCASE_PHASE
  | XML_PHASE
  | SETUP_PHASE
  | SHAREDLIB_BUILD_PHASE
  | MODEL_BUILD_PHASE
  | SUBMIT_PHASE
  | RUN_PHASE
  | OTHER_PHASE string

datatype status =
    TEST_PASS_STATUS
  | TEST_PEND_STATUS
  | TEST_FAIL_STATUS
  | OTHER_STATUS string

text \<open>The comment argument of \<open>TestStatus.set_status\<close>: absent, or the rerun comment.\<close>

datatype ts_comment = NO_COMMENT | TEST_RERUN_COMMENT

text \<open>
  Exceptions. \<open>CIMEError m\<close> is raised by \<open>expect(False, m)\<close>; the others are the
  Python built-ins raised by \<open>list.index\<close>, a dictionary lookup, a list subscript,
  an attribute of \<open>None\<close>, a format of \<open>None\<close> and a float that is too large;
  \<open>ExternalError\<close> is an exception raised inside a collaborator.
\<close>

datatype exc =
    CIMEError string
  | ValueError
  | KeyError
  | IndexError
  | AttributeError
  | TypeError
  | OverflowError
  | ExternalError string

type_synonym test = string

definition sq :: string where
  "sq = [CHR 0x27]"

definition nl :: string where
  "nl = [CHR 0x0A]"

fun phase_name :: "phase \<Rightarrow> string" where
  "phase_name TEST_START = ''INIT''"
| "phase_name CREATE_NEWCASE_PHASE = ''CREATE_NEWCASE''"
| "phase_name XML_PHASE = ''XML''"
| "phase_name SETUP_PHASE = ''SETUP''"
| "phase_name SHAREDLIB_BUILD_PHASE = ''SHAREDLIB_BUILD''"
| "phase_name MODEL_BUILD_PHASE = ''MODEL_BUILD''"
| "phase_name SUBMIT_PHASE = ''SUBMIT''"
| "phase_name RUN_PHASE = ''RUN''"
| "phase_name (OTHER_PHASE n) = n"

fun status_name :: "status \<Rightarrow> string" where
  "status_name TEST_PASS_STATUS = ''PASS''"
| "status_name TEST_PEND_STATUS = ''PEND''"
| "status_name TEST_FAIL_STATUS = ''FAIL''"
| "status_name (OTHER_STATUS n) = n"

text \<open>Decimal rendering of a Python int, as \<open>str.format\<close> prints it.\<close>

function str_nat :: "nat \<Rightarrow> string" where
  "str_nat n =
     (if n < 10 then [''0123456789'' ! n]
      else str_nat (n div 10) @ [''0123456789'' ! (n mod 10)])"
  by pat_completeness auto
termination
  by (relation "measure (\<lambda>n. n)") auto

definition str_int :: "int \<Rightarrow> string" where
  "str_int i = (if i < 0 then CHR ''-'' # str_nat (nat (- i)) else str_nat (nat i))"

text \<open>\<open>list.index\<close>: the position of the first occurrence, or \<open>ValueError\<close> (here \<open>None\<close>).\<close>

fun list_index :: "'a list \<Rightarrow> 'a \<Rightarrow> nat option" where
  "list_index [] x = None"
| "list_index (y # ys) x = (if y = x then Some 0 else map_option Suc (list_index ys x))"

subsection \<open>The scheduler object\<close>

text \<open>A value written into a case by \<open>case.set_value\<close>.\<close>

datatype cval = StrVal string | IntVal int

text \<open>
  The fields of \<open>self\<close> that the modelled methods read or write, under their names
  in the source without the leading underscore. \<open>tests\<close> is the \<open>OrderedDict\<close>
  name -> (phase, status). \<open>serialize_sharedlib_builds\<close> is the attribute of
  \<open>self._config\<close>. The last seven fields are the world outside the process as far as the
  scheduler changes it: the \<open>TestStatus\<close> file of each test directory (of an abstract
  type \<open>'ts\<close>), the lines appended to each test's log by \<open>_log_output\<close>, the values set
  in each case by \<open>case.set_value\<close> (latest last), the cases on which \<open>post_build\<close> ran,
  the lines appended to each README.case, the number of subprocesses run so far and the
  seconds slept.
\<close>

record 'ts scheduler =
  tests :: "(test \<times> phase \<times> status) list"
  no_setup :: bool
  no_build :: bool
  no_run :: bool
  no_batch :: bool
  build_groups :: "test list list"
  build_group_exeroots :: "test list \<Rightarrow> string option"
  model_build_cost :: int
  proc_pool :: int
  procs_avail :: int
  parallel_jobs :: int
  completed_tests :: nat
  serialize_sharedlib_builds :: bool
  allow_pnl :: bool
  mail_user :: "string option"
  mail_type :: "string list option"
  chksum :: bool
  single_exe :: bool
  status_files :: "test \<Rightarrow> 'ts"
  test_logs :: "test \<Rightarrow> string list"
  case_values :: "test \<Rightarrow> (string \<times> cval) list"
  post_built :: "test list"
  readme_case :: "test \<Rightarrow> string list"
  cmd_calls :: nat
  slept :: nat

text \<open>
  What the scheduler calls and test\_scheduler.py does not define.
  \<^item> \<open>run_cmd n cmd\<close>: (return code, output, error output) of the \<open>n\<close>-th subprocess
    the scheduler starts, running \<open>cmd\<close>.
  \<^item> \<open>case_opts t\<close>: the second component of \<open>parse_test_name(t)\<close>.
  \<^item> \<open>total_pes t\<close>: \<open>TOTALPES\<close> of the case of \<open>t\<close>.
  \<^item> \<open>ts_set_status\<close>, \<open>ts_iter\<close>: \<open>TestStatus.set_status\<close> and the iteration over a
    \<open>TestStatus\<close>, which yields (phase, status) pairs.
  \<^item> \<open>core_phases\<close>, \<open>tests_failed_err_code\<close>: the constants \<open>CORE_PHASES\<close> and
    \<open>TESTS_FAILED_ERR_CODE\<close>.
  \<^item> \<open>str_exc\<close>, \<open>format_tb\<close>: \<open>str(e)\<close> and the formatted traceback of an exception.
  \<^item> \<open>xml_env_test t\<close>: the part of \<open>_xml_phase\<close> before the build group is looked at
    (the env\_test object, the option codes, the lock of env\_run.xml, opening the case):
    the exception it raises, if any. \<open>case_exeroot t\<close>: \<open>EXEROOT\<close> of the case of \<open>t\<close>.
  \<^item> \<open>support_single_exe t\<close>: the exception \<open>Tests.support_single_exe\<close> raises on the
    case of \<open>t\<close>, if any. \<open>sys_argv\<close>: the command line of the process.
\<close>

record 'ts externals =
  run_cmd :: "nat \<Rightarrow> string \<Rightarrow> int \<times> string \<times> string"
  case_opts :: "test \<Rightarrow> string list option"
  total_pes :: "test \<Rightarrow> int"
  ts_set_status :: "'ts \<Rightarrow> phase \<Rightarrow> status \<Rightarrow> ts_comment \<Rightarrow> 'ts"
  ts_iter :: "'ts \<Rightarrow> (phase \<times> status) list"
  core_phases :: "phase list"
  tests_failed_err_code :: int
  str_exc :: "exc \<Rightarrow> string"
  format_tb :: "exc \<Rightarrow> string"
  xml_env_test :: "test \<Rightarrow> exc option"
  case_exeroot :: "test \<Rightarrow> string"
  support_single_exe :: "test \<Rightarrow> exc option"
  sys_argv :: "string list"

subsection \<open>The phase list\<close>

definition PHASES :: "phase list" where
  "PHASES =
     [TEST_START, CREATE_NEWCASE_PHASE, XML_PHASE, SETUP_PHASE,
      SHAREDLIB_BUILD_PHASE, MODEL_BUILD_PHASE, RUN_PHASE]"

text \<open>
  \<open>self._phases\<close>: \<open>__init__\<close> copies \<open>PHASES\<close> and removes the pruned phases;
  no method assigns it afterwards, so it is a function of the three flags.
\<close>

definition setup_phases :: "bool \<Rightarrow> bool \<Rightarrow> bool \<Rightarrow> phase list" where
  "setup_phases ns nb nr =
     (let p1 = (if ns then remove1 SETUP_PHASE PHASES else PHASES);
          p2 = (if nb then remove1 MODEL_BUILD_PHASE (remove1 SHAREDLIB_BUILD_PHASE p1) else p1)
      in if nr then remove1 RUN_PHASE p2 else p2)"

definition phases :: "'ts scheduler \<Rightarrow> phase list" where
  "phases s = setup_phases (no_setup s) (no_build s) (no_run s)"

subsection \<open>The in-memory test state\<close>

definition get_test_data :: "'ts scheduler \<Rightarrow> test \<Rightarrow> exc + phase \<times> status" where
  "get_test_data s t = (case map_of (tests s) t of None \<Rightarrow> Inl KeyError | Some d \<Rightarrow> Inr d)"

definition set_test_data :: "'ts scheduler \<Rightarrow> test \<Rightarrow> phase \<times> status \<Rightarrow> 'ts scheduler" where
  "set_test_data s t d = s\<lparr>tests := AList.update t d (tests s)\<rparr>"

definition get_test_status :: "'ts scheduler \<Rightarrow> test \<Rightarrow> phase option \<Rightarrow> exc + status" where
  "get_test_status s t ph =
     (case get_test_data s t of
        Inl e \<Rightarrow> Inl e
      | Inr (curr_phase, curr_status) \<Rightarrow>
          (case ph of
             None \<Rightarrow> Inr curr_status
           | Some p \<Rightarrow>
               if p = curr_phase then Inr curr_status
               else
                 (case list_index (phases s) p of
                    None \<Rightarrow> Inl ValueError
                  | Some p_idx \<Rightarrow>
                      (case list_index (phases s) curr_phase of
                         None \<Rightarrow> Inl ValueError
                       | Some c_idx \<Rightarrow>
                           if c_idx < p_idx then Inr TEST_PEND_STATUS else Inr TEST_PASS_STATUS))))"

definition get_test_phase :: "'ts scheduler \<Rightarrow> test \<Rightarrow> exc + phase" where
  "get_test_phase s t = (case get_test_data s t of Inl e \<Rightarrow> Inl e | Inr d \<Rightarrow> Inr (fst d))"

definition is_broken :: "'ts scheduler \<Rightarrow> test \<Rightarrow> exc + bool" where
  "is_broken s t =
     (case get_test_status s t None of
        Inl e \<Rightarrow> Inl e
      | Inr st \<Rightarrow> Inr (st \<noteq> TEST_PASS_STATUS \<and> st \<noteq> TEST_PEND_STATUS))"

text \<open>\<open>self._phases[-1]\<close> is \<open>last\<close>: the list always holds \<open>TEST_START\<close>.\<close>

definition work_remains :: "'ts scheduler \<Rightarrow> test \<Rightarrow> exc + bool" where
  "work_remains s t =
     (case get_test_data s t of
        Inl e \<Rightarrow> Inl e
      | Inr (test_phase, test_status) \<Rightarrow>
          Inr ((test_status = TEST_PASS_STATUS \<or> test_status = TEST_PEND_STATUS)
               \<and> test_phase \<noteq> last (phases s)))"

definition update_test_status ::
  "'ts scheduler \<Rightarrow> test \<Rightarrow> phase \<Rightarrow> status \<Rightarrow> exc + 'ts scheduler" where
  "update_test_status s t ph st =
     (case list_index (phases s) ph of
        None \<Rightarrow> Inl ValueError
      | Some phase_idx \<Rightarrow>
          (case get_test_data s t of
             Inl e \<Rightarrow> Inl e
           | Inr (old_phase, old_status) \<Rightarrow>
               if old_phase = ph then
                 if old_status \<noteq> TEST_PEND_STATUS then
                   Inl (CIMEError
                     (''Only valid to transition from PEND to something else, found '' @ sq
                       @ status_name old_status @ sq @ '' for phase '' @ sq @ phase_name ph @ sq))
                 else if st = TEST_PEND_STATUS then
                   Inl (CIMEError ''Cannot transition from PEND -> PEND'')
                 else Inr (set_test_data s t (ph, st))
               else
                 if old_status \<noteq> TEST_PASS_STATUS then
                   Inl (CIMEError
                     ''Why did we move on to next phase when prior phase did not pass?'')
                 else if st \<noteq> TEST_PEND_STATUS then
                   Inl (CIMEError ''New phase should be set to pending status'')
                 else
                   (case list_index (phases s) old_phase of
                      None \<Rightarrow> Inl ValueError
                    | Some old_idx \<Rightarrow>
                        if int old_idx = int phase_idx - 1
                        then Inr (set_test_data s t (ph, st))
                        else Inl (CIMEError
                          (''Skipped phase? '' @ phase_name old_phase @ '' ''
                             @ str_nat phase_idx)))))"

subsection \<open>Build groups and the cost of a phase\<close>

text \<open>
  \<open>_get_build_group\<close>: the first group that holds the test, with whether the test is its
  first element and that first element (the leader).
\<close>

fun get_build_group_in :: "test list list \<Rightarrow> test \<Rightarrow> exc + bool \<times> test \<times> test list" where
  "get_build_group_in [] t =
     Inl (CIMEError (''No build group for test '' @ sq @ t @ sq))"
| "get_build_group_in (build_group # rest) t =
     (if t \<in> set build_group then Inr (t = hd build_group, hd build_group, build_group)
      else get_build_group_in rest t)"

definition get_build_group :: "'ts scheduler \<Rightarrow> test \<Rightarrow> exc + bool \<times> test \<times> test list" where
  "get_build_group s t = get_build_group_in (build_groups s) t"

text \<open>
  \<open>_get_procs_needed\<close>. \<open>Inr None\<close> is the Python \<open>None\<close>: the phase is ineligible now.
  \<open>threads_in_flight\<close> is the dictionary test -> (thread, procs, phase) without the thread
  object, or \<open>None\<close> when the caller leaves the argument out.
\<close>

definition get_procs_needed ::
  "'ts externals \<Rightarrow> 'ts scheduler \<Rightarrow> test \<Rightarrow> phase
     \<Rightarrow> (test \<times> int \<times> phase) list option \<Rightarrow> bool \<Rightarrow> exc + int option" where
  "get_procs_needed ext s t ph threads_in_flight no_batch_arg =
     (case get_build_group s t of
        Inl e \<Rightarrow> Inl e
      | Inr (is_first_test, first_test, my_build_group) \<Rightarrow>
          if \<not> is_first_test
             \<and> ph \<in> set [XML_PHASE, SHAREDLIB_BUILD_PHASE, MODEL_BUILD_PHASE]
          then
            (case get_test_status s first_test (Some ph) of
               Inl e \<Rightarrow> Inl e
             | Inr st \<Rightarrow> if st = TEST_PEND_STATUS then Inr None else Inr (Some 1))
          else if ph = RUN_PHASE \<and> (no_batch s \<or> no_batch_arg) then
            Inr (Some (total_pes ext t))
          else if ph = SHAREDLIB_BUILD_PHASE then
            (if serialize_sharedlib_builds s then
               (case threads_in_flight of
                  None \<Rightarrow> Inl AttributeError
                | Some tif \<Rightarrow>
                    if list_ex (\<lambda>(_, _, running_phase). running_phase = SHAREDLIB_BUILD_PHASE) tif
                    then Inr None else Inr (Some 1))
             else Inr (Some 1))
          else if ph = MODEL_BUILD_PHASE then Inr (Some (model_build_cost s))
          else Inr (Some 1))"

subsection \<open>The test log and the status file\<close>

definition log_output :: "'ts scheduler \<Rightarrow> test \<Rightarrow> string \<Rightarrow> 'ts scheduler" where
  "log_output s t output = s\<lparr>test_logs := (test_logs s)(t := test_logs s t @ [output])\<rparr>"

text \<open>\<open>_update_test_status_file\<close>: one \<open>set_status\<close> on the file of the test, no comment.\<close>

definition update_test_status_file ::
  "'ts externals \<Rightarrow> 'ts scheduler \<Rightarrow> test \<Rightarrow> phase \<Rightarrow> status \<Rightarrow> 'ts scheduler" where
  "update_test_status_file ext s t test_phase st =
     s\<lparr>status_files :=
         (status_files s)(t := ts_set_status ext (status_files s t) test_phase st NO_COMMENT)\<rparr>"

definition case_set_value :: "'ts scheduler \<Rightarrow> test \<Rightarrow> string \<Rightarrow> cval \<Rightarrow> 'ts scheduler" where
  "case_set_value s t k v = s\<lparr>case_values := (case_values s)(t := case_values s t @ [(k, v)])\<rparr>"

text \<open>The values of \<open>GMAKE_J\<close> set in the case of a test so far, oldest first.\<close>

definition gmake_j_values :: "'ts scheduler \<Rightarrow> test \<Rightarrow> (string \<times> cval) list" where
  "gmake_j_values s t = filter (\<lambda>kv. fst kv = ''GMAKE_J'') (case_values s t)"

subsection \<open>Running the command of a phase\<close>

text \<open>\<open>p in s\<close> on strings, and \<open>sep.join(xs)\<close>.\<close>

fun starts_with :: "string \<Rightarrow> string \<Rightarrow> bool" where
  "starts_with s [] = True"
| "starts_with [] (c # p) = False"
| "starts_with (a # s) (c # p) = (a = c \<and> starts_with s p)"

fun contains :: "string \<Rightarrow> string \<Rightarrow> bool" where
  "contains [] p = (p = [])"
| "contains (a # s) p = (starts_with (a # s) p \<or> contains s p)"

fun join :: "string \<Rightarrow> string list \<Rightarrow> string" where
  "join sep [] = []"
| "join sep [x] = x"
| "join sep (x # y # ys) = x @ sep @ join sep (y # ys)"

definition phase_log_message ::
  "string \<Rightarrow> string \<Rightarrow> test \<Rightarrow> string \<Rightarrow> string \<Rightarrow> string \<Rightarrow> string" where
  "phase_log_message phase_str verdict t cmd output errput =
     phase_str @ '' '' @ verdict @ '' for test '' @ sq @ t @ sq @ ''.'' @ nl
       @ ''Command: '' @ cmd @ nl @ ''Output: '' @ output @ nl @ errput @ nl"

text \<open>
  \<open>_shell_cmd_for_phase\<close>: the loop \<open>while True\<close>. Each round runs the command once.
  The result is \<open>None\<close> when the loop never returns.
\<close>

partial_function (option) shell_cmd_for_phase ::
  "'ts externals \<Rightarrow> test \<Rightarrow> string \<Rightarrow> phase \<Rightarrow> 'ts scheduler
     \<Rightarrow> ((bool \<times> string) \<times> 'ts scheduler) option" where
  "shell_cmd_for_phase ext t cmd ph s =
     (case run_cmd ext (cmd_calls s) cmd of
        (rc, output, errput) \<Rightarrow>
          if rc \<noteq> 0 then
            if contains output ''bad interpreter'' then
              shell_cmd_for_phase ext t cmd ph
                ((log_output (s\<lparr>cmd_calls := Suc (cmd_calls s)\<rparr>) t
                    (phase_log_message (phase_name ph) ''FAILED'' t cmd output errput))
                  \<lparr>slept := slept s + 1\<rparr>)
            else
              Some ((False, errput),
                log_output (s\<lparr>cmd_calls := Suc (cmd_calls s)\<rparr>) t
                  (phase_log_message (phase_name ph) ''FAILED'' t cmd output errput))
          else
            Some ((True, errput),
              log_output (s\<lparr>cmd_calls := Suc (cmd_calls s)\<rparr>) t
                (phase_log_message (if ph = RUN_PHASE then ''SUBMIT'' else phase_name ph)
                   ''PASSED'' t cmd output errput)))"

text \<open>\<open>_run_cmpgen_namelists\<close>: one subprocess; its return code and output.\<close>

definition run_cmpgen_namelists ::
  "'ts externals \<Rightarrow> 'ts scheduler \<Rightarrow> (int \<times> string) \<times> 'ts scheduler" where
  "run_cmpgen_namelists ext s =
     (case run_cmd ext (cmd_calls s) ''./case.cmpgen_namelists'' of
        (cmdstat, output, _) \<Rightarrow> ((cmdstat, output), s\<lparr>cmd_calls := Suc (cmd_calls s)\<rparr>))"

subsection \<open>The phase methods\<close>

text \<open>
  A phase method returns a pair (success, errors) or raises. It may also not return
  (the loop of \<open>_shell_cmd_for_phase\<close>), so its value is an option. The state it leaves is
  kept in both cases: what it wrote before raising stays written.
\<close>

datatype outcome = Returned bool string | Raised exc

type_synonym 'ts phase_method =
  "test \<Rightarrow> 'ts scheduler \<Rightarrow> (outcome \<times> 'ts scheduler) option"

definition cannot_use_build :: "test \<Rightarrow> string" where
  "cannot_use_build first_test =
     ''Cannot use build for test '' @ first_test @ '' because it failed''"

text \<open>
  \<open>_xml_phase\<close>, from the point where the case is open: the executable root of the build
  group, then the clamp of the build parallelism. Everything before that point is
  \<open>xml_env_test\<close>; of the values the method sets in the case, \<open>case_values\<close> records
  \<open>EXEROOT\<close> and \<open>GMAKE_J\<close>.
\<close>

definition xml_phase :: "'ts externals \<Rightarrow> 'ts phase_method" where
  "xml_phase ext t s =
     (case xml_env_test ext t of
        Some e \<Rightarrow> Some (Raised e, s)
      | None \<Rightarrow>
          (case get_build_group s t of
             Inl e \<Rightarrow> Some (Raised e, s)
           | Inr (is_first_test, first_test, my_build_group) \<Rightarrow>
               (case (if is_first_test then
                        (if build_group_exeroots s my_build_group \<noteq> None
                         then Inl (CIMEError ''Should not already have exeroot'')
                         else Inr (s\<lparr>build_group_exeroots :=
                                (build_group_exeroots s)
                                  (my_build_group := Some (case_exeroot ext t))\<rparr>))
                      else
                        (case build_group_exeroots s my_build_group of
                           None \<Rightarrow> Inl (CIMEError ''Should already have exeroot'')
                         | Some build_group_exeroot \<Rightarrow>
                             Inr (case_set_value s t ''EXEROOT'' (StrVal build_group_exeroot))))
                of
                  Inl e \<Rightarrow> Some (Raised e, s)
                | Inr s1 \<Rightarrow>
                    if proc_pool s1 < model_build_cost s1 then
                      Some (Returned True [],
                        (case_set_value s1 t ''GMAKE_J'' (IntVal (proc_pool s1)))
                          \<lparr>model_build_cost := proc_pool s1\<rparr>)
                    else Some (Returned True [], s1))))"

definition setup_phase :: "'ts externals \<Rightarrow> 'ts phase_method" where
  "setup_phase ext t s =
     (case shell_cmd_for_phase ext t ''./case.setup'' SETUP_PHASE s of
        None \<Rightarrow> None
      | Some (rv, s1) \<Rightarrow>
          (let s2 = (if fst rv then snd (run_cmpgen_namelists ext s1) else s1) in
           if single_exe s2 then
             (case support_single_exe ext t of
                Some e \<Rightarrow> Some (Raised e, update_test_status_file ext s2 t SETUP_PHASE TEST_FAIL_STATUS)
              | None \<Rightarrow> Some (Returned (fst rv) (snd rv), s2))
           else Some (Returned (fst rv) (snd rv), s2)))"

definition sharedlib_build_phase :: "'ts externals \<Rightarrow> 'ts phase_method" where
  "sharedlib_build_phase ext t s =
     (case get_build_group s t of
        Inl e \<Rightarrow> Some (Raised e, s)
      | Inr (is_first_test, first_test, my_build_group) \<Rightarrow>
          if \<not> is_first_test then
            (case get_test_status s first_test (Some SHAREDLIB_BUILD_PHASE) of
               Inl e \<Rightarrow> Some (Raised e, s)
             | Inr st \<Rightarrow>
                 if st = TEST_PASS_STATUS then Some (Returned True [], s)
                 else Some (Returned False (cannot_use_build first_test), s))
          else
            (case shell_cmd_for_phase ext t ''./case.build --sharedlib-only''
                    SHAREDLIB_BUILD_PHASE s of
               None \<Rightarrow> None
             | Some (result, s1) \<Rightarrow>
                 (case run_cmpgen_namelists ext s1 of
                    ((cmdstat, output), s2) \<Rightarrow>
                      if cmdstat \<in> set [0, tests_failed_err_code ext]
                      then Some (Returned (fst result) (snd result), s2)
                      else Some (Raised (CIMEError
                                   (''Fatal error in case.cmpgen_namelists: '' @ output)),
                                 update_test_status_file ext s2 t SETUP_PHASE TEST_FAIL_STATUS))))"

definition model_build_phase :: "'ts externals \<Rightarrow> 'ts phase_method" where
  "model_build_phase ext t s =
     (case get_build_group s t of
        Inl e \<Rightarrow> Some (Raised e, s)
      | Inr (is_first_test, first_test, my_build_group) \<Rightarrow>
          if \<not> is_first_test then
            (case get_test_status s first_test (Some MODEL_BUILD_PHASE) of
               Inl e \<Rightarrow> Some (Raised e, s)
             | Inr st \<Rightarrow>
                 if st = TEST_PASS_STATUS
                 then Some (Returned True [], s\<lparr>post_built := post_built s @ [t]\<rparr>)
                 else Some (Returned False (cannot_use_build first_test), s))
          else
            (case shell_cmd_for_phase ext t ''./case.build --model-only'' MODEL_BUILD_PHASE s of
               None \<Rightarrow> None
             | Some (result, s1) \<Rightarrow> Some (Returned (fst result) (snd result), s1)))"

definition submit_cmd :: "'ts scheduler \<Rightarrow> string" where
  "submit_cmd s =
     ''./case.submit''
       @ (if \<not> allow_pnl s then '' --skip-preview-namelist'' else [])
       @ (if no_batch s then '' --no-batch'' else [])
       @ (case mail_user s of
            None \<Rightarrow> []
          | Some u \<Rightarrow> if u \<noteq> [] then '' --mail-user='' @ u else [])
       @ (case mail_type s of
            None \<Rightarrow> []
          | Some m \<Rightarrow> if m \<noteq> [] then '' -M='' @ join '','' m else [])
       @ (if chksum s then '' --chksum'' else [])"

definition run_phase :: "'ts externals \<Rightarrow> 'ts phase_method" where
  "run_phase ext t s =
     (if (case case_opts ext t of None \<Rightarrow> False | Some opts \<Rightarrow> ''B'' \<in> set opts) then
        Some (Returned True ''SKIPPED'',
          update_test_status_file ext
            (update_test_status_file ext
               (log_output s t (''RUN SKIPPED for test '' @ sq @ t @ sq))
               t SUBMIT_PHASE TEST_PASS_STATUS)
            t RUN_PHASE TEST_PASS_STATUS)
      else
        (case shell_cmd_for_phase ext t (submit_cmd s) RUN_PHASE s of
           None \<Rightarrow> None
         | Some (result, s1) \<Rightarrow> Some (Returned (fst result) (snd result), s1)))"

subsection \<open>The worker\<close>

definition exception_report :: "'ts externals \<Rightarrow> test \<Rightarrow> phase \<Rightarrow> exc \<Rightarrow> string" where
  "exception_report ext t ph e =
     ''Test '' @ sq @ t @ sq @ '' failed in phase '' @ sq @ phase_name ph @ sq
       @ '' with exception '' @ sq @ str_exc ext e @ sq @ nl @ format_tb ext e"

definition run_catch_exceptions ::
  "'ts externals \<Rightarrow> test \<Rightarrow> phase \<Rightarrow> 'ts phase_method \<Rightarrow> 'ts scheduler
     \<Rightarrow> ((bool \<times> string) \<times> 'ts scheduler) option" where
  "run_catch_exceptions ext t ph run s =
     (case run t s of
        None \<Rightarrow> None
      | Some (Returned success errors, s1) \<Rightarrow> Some ((success, errors), s1)
      | Some (Raised e, s1) \<Rightarrow>
          Some ((False, exception_report ext t ph e),
                log_output s1 t (exception_report ext t ph e)))"

text \<open>The status a worker derives from the result of its phase.\<close>

definition consumer_status :: "'ts scheduler \<Rightarrow> phase \<Rightarrow> bool \<Rightarrow> status" where
  "consumer_status s test_phase success =
     (if success then
        (if test_phase = RUN_PHASE \<and> \<not> no_batch s then TEST_PEND_STATUS else TEST_PASS_STATUS)
      else TEST_FAIL_STATUS)"

text \<open>The phases for which the worker itself writes the status file.\<close>

definition consumer_writes_status_file :: "bool \<Rightarrow> phase \<Rightarrow> bool" where
  "consumer_writes_status_file is_first_test test_phase =
     (test_phase \<in> set [CREATE_NEWCASE_PHASE, XML_PHASE]
      \<or> (\<not> is_first_test \<and> test_phase \<in> set [SHAREDLIB_BUILD_PHASE, MODEL_BUILD_PHASE]))"

text \<open>
  \<open>_consumer\<close>, the body of a worker thread. An exception that escapes it ends the
  thread: the result is then \<open>(Some e, s)\<close> with the state reached; \<open>(None, s)\<close> is a
  normal return. The method calls itself once, for \<open>RUN\<close>, after a successful model build.
\<close>

function consumer ::
  "'ts externals \<Rightarrow> test \<Rightarrow> phase \<Rightarrow> 'ts phase_method \<Rightarrow> 'ts scheduler
     \<Rightarrow> (exc option \<times> 'ts scheduler) option" where
  "consumer ext t test_phase phase_method s =
     (case run_catch_exceptions ext t test_phase phase_method s of
        None \<Rightarrow> None
      | Some ((success, errors), s1) \<Rightarrow>
          (case (if consumer_status s1 test_phase success \<noteq> TEST_PEND_STATUS
                 then update_test_status s1 t test_phase (consumer_status s1 test_phase success)
                 else Inr s1) of
             Inl e \<Rightarrow> Some (Some e, s1)
           | Inr s2 \<Rightarrow>
               (case work_remains s2 t of
                  Inl e \<Rightarrow> Some (Some e, s2)
                | Inr wr \<Rightarrow>
                    (case get_build_group s2 t of
                       Inl e \<Rightarrow>
                         Some (Some e,
                           if wr then s2 else s2\<lparr>completed_tests := completed_tests s2 + 1\<rparr>)
                     | Inr (is_first_test, first_test, my_build_group) \<Rightarrow>
                         (let s3 = (if wr then s2
                                    else s2\<lparr>completed_tests := completed_tests s2 + 1\<rparr>);
                              s4 = (if consumer_writes_status_file is_first_test test_phase
                                    then update_test_status_file ext s3 t test_phase
                                           (consumer_status s1 test_phase success)
                                    else s3);
                              s5 = (if test_phase = XML_PHASE
                                    then s4\<lparr>readme_case := (readme_case s4)
                                           (t := readme_case s4 t
                                              @ [''Case Created using: '' @ join '' '' (sys_argv ext)])\<rparr>
                                    else s4)
                          in
                            if success \<and> \<not> no_run s5 \<and> \<not> no_batch s5
                               \<and> test_phase = MODEL_BUILD_PHASE
                            then
                              (case get_procs_needed ext s5 t RUN_PHASE None True of
                                 Inl e \<Rightarrow> Some (Some e, s5)
                               | Inr None \<Rightarrow> Some (Some TypeError, s5)
                               | Inr (Some procs) \<Rightarrow>
                                   (case update_test_status s5 t RUN_PHASE TEST_PEND_STATUS of
                                      Inl e \<Rightarrow> Some (Some e, s5)
                                    | Inr s6 \<Rightarrow> consumer ext t RUN_PHASE (run_phase ext) s6))
                            else Some (None, s5))))))"
  by pat_completeness auto
termination
  by (relation "measure (\<lambda>(ext, t, test_phase, phase_method, s).
                  if test_phase = MODEL_BUILD_PHASE then 1 else 0)") auto

declare consumer.simps [simp del]

subsection \<open>The producer's launch of one phase\<close>

definition over_pool_message :: "test \<Rightarrow> phase \<Rightarrow> int \<Rightarrow> string" where
  "over_pool_message t next_phase procs_needed =
     ''Test '' @ t @ '' phase '' @ phase_name next_phase @ '' requested more (''
       @ str_int procs_needed @ '') than entire pool (self._proc_pool)''"

text \<open>
  \<open>_producer_indv_test_launch\<close>. The result is whether a phase was launched, the new
  state and the new \<open>threads_in_flight\<close>; starting the thread is the new entry of
  \<open>threads_in_flight\<close> (the thread then runs \<open>consumer\<close>). An exception here leaves the
  producer loop, so \<open>Inl\<close> carries no state.
\<close>

definition producer_indv_test_launch ::
  "'ts externals \<Rightarrow> 'ts scheduler \<Rightarrow> test \<Rightarrow> (test \<times> int \<times> phase) list
     \<Rightarrow> exc + bool \<times> 'ts scheduler \<times> (test \<times> int \<times> phase) list" where
  "producer_indv_test_launch ext s t threads_in_flight =
     (case get_test_data s t of
        Inl e \<Rightarrow> Inl e
      | Inr (test_phase, test_status) \<Rightarrow>
          if test_status = TEST_PEND_STATUS then Inl (CIMEError t)
          else
            (case list_index (phases s) test_phase of
               None \<Rightarrow> Inl ValueError
             | Some idx \<Rightarrow>
                 if length (phases s) \<le> idx + 1 then Inl IndexError
                 else
                   (let next_phase = phases s ! (idx + 1) in
                    case get_procs_needed ext s t next_phase (Some threads_in_flight) False of
                      Inl e \<Rightarrow> Inl e
                    | Inr None \<Rightarrow> Inr (False, s, threads_in_flight)
                    | Inr (Some procs_needed) \<Rightarrow>
                        if proc_pool s < procs_needed then
                          (if next_phase \<noteq> RUN_PHASE
                           then Inl (CIMEError (over_pool_message t next_phase procs_needed))
                           else
                             (case update_test_status
                                     (update_test_status_file ext
                                        (update_test_status_file ext s t SUBMIT_PHASE
                                           TEST_PASS_STATUS)
                                        t RUN_PHASE TEST_FAIL_STATUS)
                                     t next_phase TEST_PEND_STATUS of
                                Inl e \<Rightarrow> Inl e
                              | Inr s3 \<Rightarrow>
                                  (case update_test_status s3 t next_phase TEST_FAIL_STATUS of
                                     Inl e \<Rightarrow> Inl e
                                   | Inr s4 \<Rightarrow>
                                       Inr (True,
                                            log_output s4 t
                                              (over_pool_message t next_phase procs_needed),
                                            threads_in_flight))))
                        else if procs_needed \<le> procs_avail s then
                          (case update_test_status
                                  (s\<lparr>procs_avail := procs_avail s - procs_needed\<rparr>)
                                  t next_phase TEST_PEND_STATUS of
                             Inl e \<Rightarrow> Inl e
                           | Inr s2 \<Rightarrow>
                               Inr (True, s2,
                                    AList.update t (procs_needed, next_phase) threads_in_flight))
                        else Inr (False, s, threads_in_flight))))"

subsection \<open>Construction: the resource pools\<close>

text \<open>
  Two of the values below go through Python floats, which are IEEE doubles: 53
  significant bits, rounding to the nearest double with ties to the even significand,
  and no finite value from \<open>2 ^ 1024\<close> on. \<open>bit_length\<close> is \<open>int.bit_length\<close> on the ints
  that are not negative, the only ones it is applied to.
\<close>

function bit_length :: "int \<Rightarrow> nat" where
  "bit_length n = (if n \<le> 0 then 0 else Suc (bit_length (n div 2)))"
  by pat_completeness auto
termination
  by (relation "measure nat") auto

declare bit_length.simps [simp del]

text \<open>
  The double nearest to \<open>n + d\<close>, for an integer \<open>n \<ge> 0\<close> and a fraction \<open>0 \<le> d < 1\<close>
  of which only \<open>sticky\<close> is known, whether it is positive; a positive fraction needs
  \<open>2 ^ 53 \<le> n\<close>, so that the fraction lies below the last bit kept. The low bits of
  \<open>n\<close> beyond the 53 kept are \<open>r\<close>: more than half a unit rounds up, less rounds down,
  and half a unit rounds to the even significand.
\<close>

definition nearest_double :: "int \<Rightarrow> bool \<Rightarrow> int" where
  "nearest_double n sticky =
     (let unit = 2 ^ (bit_length n - 53); m = n div unit; r = n mod unit in
      if unit < 2 * r \<or> (2 * r = unit \<and> (sticky \<or> odd m))
      then (m + 1) * unit else m * unit)"

text \<open>
  \<open>int(a / 3)\<close> for a Python int \<open>a\<close>. The true division gives the double nearest to
  the exact quotient, or raises \<open>OverflowError\<close> when that is no finite double; \<open>int\<close>
  truncates towards zero. The quotient is rounded after scaling by \<open>2 ^ k\<close>, which
  brings its integer part to 54 bits or more.
\<close>

definition int_of_third :: "int \<Rightarrow> exc + int" where
  "int_of_third a =
     (let k = 56 - bit_length \<bar>a\<bar>;
          scaled = \<bar>a\<bar> * 2 ^ k;
          q = nearest_double (scaled div 3) (scaled mod 3 \<noteq> 0)
      in if 2 ^ (1024 + k) \<le> q then Inl OverflowError
         else Inr (sgn a * (q div 2 ^ k)))"

text \<open>
  \<open>int(n * 1.25)\<close> for a Python int \<open>n\<close>. The int is converted to the nearest double
  \<open>f\<close> (\<open>OverflowError\<close> when there is none); the product is the double nearest to
  \<open>5 f / 4\<close>, of which \<open>q\<close> is the fourfold, or infinity, which \<open>int\<close> refuses with
  \<open>OverflowError\<close>; \<open>int\<close> truncates towards zero.
\<close>

definition int_of_times_1_25 :: "int \<Rightarrow> exc + int" where
  "int_of_times_1_25 n =
     (let f = nearest_double \<bar>n\<bar> False in
      if 2 ^ 1024 \<le> f then Inl OverflowError
      else
        let q = nearest_double (5 * f) False in
        if 2 ^ 1026 \<le> q then Inl OverflowError
        else Inr (sgn n * (q div 4)))"

text \<open>\<open>self._model_build_cost\<close> as \<open>__init__\<close> sets it, from the configuration flag
  \<open>calculate_mode_build_cost\<close> and the machine's \<open>GMAKE_J\<close>.\<close>

definition init_model_build_cost :: "bool \<Rightarrow> int \<Rightarrow> exc + int" where
  "init_model_build_cost calculate_mode_build_cost gmake_j =
     (if calculate_mode_build_cost
      then (case int_of_third (gmake_j * 2) of
              Inl e \<Rightarrow> Inl e
            | Inr q \<Rightarrow> Inr (min 16 (q + 1)))
      else Inr 4)"

text \<open>\<open>self._proc_pool\<close>, from the argument \<open>proc_pool\<close> and the machine's
  \<open>MAX_TASKS_PER_NODE\<close>.\<close>

definition init_proc_pool :: "int option \<Rightarrow> int \<Rightarrow> exc + int" where
  "init_proc_pool proc_pool_arg max_tasks_per_node =
     (case proc_pool_arg of
        None \<Rightarrow> int_of_times_1_25 max_tasks_per_node
      | Some p \<Rightarrow> Inr p)"

text \<open>\<open>self._parallel_jobs\<close>, from the argument \<open>parallel_jobs\<close>, the test names given
  and the machine's \<open>NTEST_PARALLEL_JOBS\<close> and \<open>MAX_MPITASKS_PER_NODE\<close>.\<close>

definition init_parallel_jobs :: "int option \<Rightarrow> test list \<Rightarrow> int option \<Rightarrow> int \<Rightarrow> int" where
  "init_parallel_jobs parallel_jobs_arg test_names ntest_parallel_jobs max_mpitasks_per_node =
     (case parallel_jobs_arg of
        None \<Rightarrow>
          min (int (length test_names))
              (case ntest_parallel_jobs of
                 None \<Rightarrow> max_mpitasks_per_node
               | Some mach_parallel_jobs \<Rightarrow> mach_parallel_jobs)
      | Some p \<Rightarrow> p)"

subsection \<open>Construction: resuming from the status files\<close>

text \<open>
  The loop \<open>for phase, status in ts\<close> of \<open>__init__\<close> for one test, over the pairs the
  iteration yields; \<open>ts\<close> is the open \<open>TestStatus\<close> object. An exception leaves the
  constructor.
\<close>

fun replay ::
  "'ts externals \<Rightarrow> test \<Rightarrow> (phase \<times> status) list \<Rightarrow> 'ts \<Rightarrow> 'ts scheduler
     \<Rightarrow> exc + 'ts \<times> 'ts scheduler" where
  "replay ext t [] ts s = Inr (ts, s)"
| "replay ext t ((ph, st) # rest) ts s =
     (if ph \<in> set (core_phases ext) then
        if st \<in> set [TEST_PEND_STATUS, TEST_FAIL_STATUS] then
          (if st = TEST_FAIL_STATUS
           then Inr (ts_set_status ext ts ph TEST_PEND_STATUS TEST_RERUN_COMMENT, s)
           else Inr (ts, s))
        else if ph \<noteq> SUBMIT_PHASE then
          (case update_test_status s t ph TEST_PEND_STATUS of
             Inl e \<Rightarrow> Inl e
           | Inr s1 \<Rightarrow>
               (case update_test_status s1 t ph st of
                  Inl e \<Rightarrow> Inl e
                | Inr s2 \<Rightarrow> replay ext t rest ts s2))
        else replay ext t rest ts s
      else replay ext t rest ts s)"

text \<open>The body of \<open>for test in self._tests\<close> under \<open>use_existing\<close>, for one test.\<close>

definition use_existing_test ::
  "'ts externals \<Rightarrow> bool \<Rightarrow> 'ts scheduler \<Rightarrow> test \<Rightarrow> exc + 'ts scheduler" where
  "use_existing_test ext force_rebuild s t =
     (let ts = (if force_rebuild
                then ts_set_status ext (status_files s t) SHAREDLIB_BUILD_PHASE
                       TEST_PEND_STATUS NO_COMMENT
                else status_files s t)
      in case replay ext t (ts_iter ext ts) ts s of
           Inl e \<Rightarrow> Inl e
         | Inr (ts', s') \<Rightarrow> Inr (s'\<lparr>status_files := (status_files s')(t := ts')\<rparr>))"

fun use_existing_tests ::
  "'ts externals \<Rightarrow> bool \<Rightarrow> 'ts scheduler \<Rightarrow> test list \<Rightarrow> exc + 'ts scheduler" where
  "use_existing_tests ext force_rebuild s [] = Inr s"
| "use_existing_tests ext force_rebuild s (t # rest) =
     (case use_existing_test ext force_rebuild s t of
        Inl e \<Rightarrow> Inl e
      | Inr s' \<Rightarrow> use_existing_tests ext force_rebuild s' rest)"

subsection \<open>A concrete status store and concrete schedulers\<close>

text \<open>
  Modelled from the spec: the class \<open>TestStatus\<close> (CIME.test\_status) is not part of
  the sources at hand. The spec's StatusStore is a log of (phase, status, optional comment)
  records; \<open>write\<close> appends a record and \<open>read\<close> returns the sequence. The theorems below
  hold for every store; this one instantiates them.
\<close>

type_synonym status_store = "(phase \<times> status \<times> ts_comment) list"

definition store_write :: "status_store \<Rightarrow> phase \<Rightarrow> status \<Rightarrow> ts_comment \<Rightarrow> status_store" where
  "store_write r ph st c = r @ [(ph, st, c)]"

definition store_read :: "status_store \<Rightarrow> (phase \<times> status) list" where
  "store_read r = map (\<lambda>(ph, st, c). (ph, st)) r"

text \<open>
  An environment in which every subprocess succeeds with empty output, test names carry
  no options, and \<open>CORE_PHASES\<close> is the scheduler's pipeline with \<open>SUBMIT\<close> before \<open>RUN\<close>.
\<close>

definition quiet_externals :: "status_store externals" where
  "quiet_externals =
     \<lparr> run_cmd = (\<lambda>n cmd. (0, [], [])),
       case_opts = (\<lambda>t. None),
       total_pes = (\<lambda>t. 4),
       ts_set_status = store_write,
       ts_iter = store_read,
       core_phases =
         [CREATE_NEWCASE_PHASE, XML_PHASE, SETUP_PHASE, SHAREDLIB_BUILD_PHASE,
          MODEL_BUILD_PHASE, SUBMIT_PHASE, RUN_PHASE],
       tests_failed_err_code = 100,
       str_exc = (\<lambda>e. case e of CIMEError m \<Rightarrow> ''ERROR: '' @ m
                             | ExternalError m \<Rightarrow> m | _ \<Rightarrow> []),
       format_tb = (\<lambda>e. []),
       xml_env_test = (\<lambda>t. None),
       case_exeroot = (\<lambda>t. ''/scratch/'' @ t @ ''/bld''),
       support_single_exe = (\<lambda>t. None),
       sys_argv = [''create_test''] \<rparr>"

text \<open>
  A scheduler over two tests of one build group, \<open>''SMS.f09.X''\<close> its leader and
  \<open>''ERS.f09.X''\<close> a follower, both in the given (phase, status), on a batch machine
  with a pool of 8 cores.
\<close>

definition two_tests ::
  "phase \<times> status \<Rightarrow> phase \<times> status \<Rightarrow> status_store scheduler" where
  "two_tests leader_data follower_data =
     \<lparr> tests = [(''SMS.f09.X'', leader_data), (''ERS.f09.X'', follower_data)],
       no_setup = False, no_build = False, no_run = False, no_batch = False,
       build_groups = [[''SMS.f09.X'', ''ERS.f09.X'']],
       build_group_exeroots = (\<lambda>g. None),
       model_build_cost = 4, proc_pool = 8, procs_avail = 8, parallel_jobs = 2,
       completed_tests = 0,
       serialize_sharedlib_builds = False,
       allow_pnl = False, mail_user = None, mail_type = None, chksum = False,
       single_exe = False,
       status_files = (\<lambda>t. []),
       test_logs = (\<lambda>t. []),
       case_values = (\<lambda>t. []),
       post_built = [],
       readme_case = (\<lambda>t. []),
       cmd_calls = 0, slept = 0 \<rparr>"

text \<open>
  The condition under which \<open>_shell_cmd_for_phase\<close> goes round its loop again: the
  return code is not zero and the output holds \<open>bad interpreter\<close>.
\<close>

definition bad_interpreter :: "int \<times> string \<times> string \<Rightarrow> bool" where
  "bad_interpreter r =
     (case r of (rc, output, errput) \<Rightarrow> rc \<noteq> 0 \<and> contains output ''bad interpreter'')"

text \<open>
  Environments whose first \<open>k\<close> subprocesses fail on a busy script and whose later ones
  all end as \<open>final\<close>; and one whose subprocesses fail on a busy script for ever.
\<close>

definition flaky_externals :: "nat \<Rightarrow> int \<times> string \<times> string \<Rightarrow> status_store externals" where
  "flaky_externals k final =
     quiet_externals\<lparr> run_cmd := (\<lambda>n cmd.
        if n < k
        then (126, ''/bin/sh: ./case.setup: /usr/bin/env: bad interpreter: Text file busy'',
              ''busy'')
        else final) \<rparr>"

definition stuck_externals :: "status_store externals" where
  "stuck_externals =
     quiet_externals\<lparr> run_cmd := (\<lambda>n cmd.
        (126, ''/bin/sh: ./case.setup: /usr/bin/env: bad interpreter: Text file busy'',
         ''busy'')) \<rparr>"

text \<open>
  An environment in which preparing env\_test fails for the leader \<open>''SMS.f09.X''\<close>
  (its driver configuration file is missing) and for no other test.
\<close>

definition leader_xml_fails_externals :: "status_store externals" where
  "leader_xml_fails_externals =
     quiet_externals\<lparr> xml_env_test := (\<lambda>t.
        if t = ''SMS.f09.X''
        then Some (CIMEError ''File config_component.xml not found, cime driver nuopc'')
        else None) \<rparr>"

text \<open>
  The two tests after the leader's worker has run \<open>XML\<close> in that environment: the leader
  stands at \<open>(XML, FAIL)\<close>, its failure is in its log and status file, and the group has
  no executable root.
\<close>

definition leader_xml_failed :: "status_store scheduler" where
  "leader_xml_failed =
     (two_tests (XML_PHASE, TEST_FAIL_STATUS) (CREATE_NEWCASE_PHASE, TEST_PASS_STATUS))
       \<lparr> completed_tests := 1,
         status_files := (\<lambda>t. [])(''SMS.f09.X'' := [(XML_PHASE, TEST_FAIL_STATUS, NO_COMMENT)]),
         test_logs := (\<lambda>t. [])(''SMS.f09.X'' :=
            [exception_report leader_xml_fails_externals ''SMS.f09.X'' XML_PHASE
               (CIMEError ''File config_component.xml not found, cime driver nuopc'')]),
         readme_case := (\<lambda>t. [])(''SMS.f09.X'' := [''Case Created using: create_test'']) \<rparr>"

text \<open>
  A scheduler over the single test \<open>name\<close>, the only member of its build group; and an
  environment in which the name \<open>''SMS_B.f09.X''\<close> parses to the option list \<open>['B']\<close>.
\<close>

definition one_test :: "test \<Rightarrow> phase \<times> status \<Rightarrow> status_store scheduler" where
  "one_test name d = (two_tests d d)\<lparr>tests := [(name, d)], build_groups := [[name]]\<rparr>"

definition b_opt_externals :: "status_store externals" where
  "b_opt_externals =
     quiet_externals\<lparr> case_opts := (\<lambda>t. if t = ''SMS_B.f09.X'' then Some [''B''] else None) \<rparr>"

text \<open>
  The two tests as \<open>__init__\<close> creates them, at \<open>(INIT, PASS)\<close>, with the given status file in
  the leader's directory.
\<close>

definition resumed :: "status_store \<Rightarrow> status_store scheduler" where
  "resumed file =
     (two_tests (TEST_START, TEST_PASS_STATUS) (TEST_START, TEST_PASS_STATUS))
       \<lparr>status_files := (\<lambda>t. [])(''SMS.f09.X'' := file)\<rparr>"

text \<open>
  Two tests that share no build, so each leads a group of its own, both about to run
  \<open>XML\<close>, one worker. The machine has \<open>GMAKE_J = 8\<close> and the configuration computes the
  model-build cost, which makes it 6; \<open>proc_pool = 4\<close> is given. Then the state after
  the \<open>XML\<close> phase of the first test, and the state after that of the second.
\<close>

definition two_leaders :: "status_store scheduler" where
  "two_leaders =
     (two_tests (XML_PHASE, TEST_PEND_STATUS) (XML_PHASE, TEST_PEND_STATUS))
       \<lparr> build_groups := [[''SMS.f09.X''], [''ERS.f09.X'']],
         model_build_cost := 6, proc_pool := 4, procs_avail := 4, parallel_jobs := 1 \<rparr>"

definition first_xml_done :: "status_store scheduler" where
  "first_xml_done =
     two_leaders
       \<lparr> build_group_exeroots := (\<lambda>g. None)([''SMS.f09.X''] := Some ''/scratch/SMS.f09.X/bld''),
         model_build_cost := 4,
         case_values := (\<lambda>t. [])(''SMS.f09.X'' := [(''GMAKE_J'', IntVal 4)]) \<rparr>"

definition second_xml_done :: "status_store scheduler" where
  "second_xml_done =
     first_xml_done
       \<lparr> build_group_exeroots :=
           ((\<lambda>g. None)([''SMS.f09.X''] := Some ''/scratch/SMS.f09.X/bld''))
             ([''ERS.f09.X''] := Some ''/scratch/ERS.f09.X/bld'') \<rparr>"

section \<open>Properties\<close>

subsection \<open>Positions in the phase list\<close>

lemma list_index_SomeD: "list_index xs x = Some i \<Longrightarrow> i < length xs \<and> xs ! i = x"
  by (induction xs arbitrary: i) (auto split: if_splits)

lemma list_index_inj: "list_index xs x = Some i \<Longrightarrow> list_index xs y = Some i \<Longrightarrow> x = y"
  using list_index_SomeD by metis

lemma list_index_None: "list_index xs x = None \<longleftrightarrow> x \<notin> set xs"
  by (induction xs) auto

lemma list_index_in_set: "x \<in> set xs \<longleftrightarrow> (\<exists>i. list_index xs x = Some i)"
  using list_index_None [of xs x] by (cases "list_index xs x") auto

lemmas eval_phases = phases_def setup_phases_def PHASES_def

lemmas eval_two_tests = two_tests_def get_test_data_def get_build_group_def

subsection \<open>The status query\<close>

text \<open>
  Claim C10. A query of a test's status at a phase of the active list looks only at the
  test's current (phase, status): it answers the stored status at the current phase,
  \<open>PEND\<close> at every phase strictly after it and \<open>PASS\<close> at every phase strictly before
  it, whatever happened there. In particular, when \<open>t\<close> leads the build group of a
  follower \<open>f\<close> and stands (in any status, so also failed) at a phase before a gated
  phase \<open>p\<close>, the follower's query at \<open>p\<close> sees \<open>PEND\<close> and the cost query answers
  \<open>None\<close>: the follower is ineligible.
\<close>

theorem get_test_status_ignores_history:
  assumes "get_test_data s t = Inr (curr_phase, curr_status)"
      and "list_index (phases s) curr_phase = Some c_idx"
      and "list_index (phases s) p = Some p_idx"
  shows "get_test_status s t (Some p) =
           Inr (if p_idx = c_idx then curr_status
                else if c_idx < p_idx then TEST_PEND_STATUS else TEST_PASS_STATUS)
       \<and> (get_build_group s f = Inr (False, t, g)
            \<and> p \<in> set [XML_PHASE, SHAREDLIB_BUILD_PHASE, MODEL_BUILD_PHASE]
            \<and> c_idx < p_idx
          \<longrightarrow> get_test_status s t (Some p) = Inr TEST_PEND_STATUS
              \<and> get_procs_needed ext s f p tif nb = Inr None)"
proof -
  have eq: "p = curr_phase \<longleftrightarrow> p_idx = c_idx"
    using assms(2,3) list_index_inj by fastforce
  have st: "get_test_status s t (Some p) =
           Inr (if p_idx = c_idx then curr_status
                else if c_idx < p_idx then TEST_PEND_STATUS else TEST_PASS_STATUS)"
    using assms eq by (simp add: get_test_status_def)
  show ?thesis
    using st by (auto simp: get_procs_needed_def)
qed

text \<open>
  The leader failed \<open>CREATE_NEWCASE\<close>; the follower passed it and asks for \<open>XML\<close>.
  The leader's failure is read as \<open>PEND\<close> at \<open>XML\<close>, and as \<open>PASS\<close> at \<open>INIT\<close>.
\<close>

theorem get_test_status_ignores_history_witness:
  "get_test_data (two_tests (CREATE_NEWCASE_PHASE, TEST_FAIL_STATUS)
                            (CREATE_NEWCASE_PHASE, TEST_PASS_STATUS)) ''SMS.f09.X''
     = Inr (CREATE_NEWCASE_PHASE, TEST_FAIL_STATUS)
   \<and> get_build_group (two_tests (CREATE_NEWCASE_PHASE, TEST_FAIL_STATUS)
                                 (CREATE_NEWCASE_PHASE, TEST_PASS_STATUS)) ''ERS.f09.X''
     = Inr (False, ''SMS.f09.X'', [''SMS.f09.X'', ''ERS.f09.X''])
   \<and> get_test_status (two_tests (CREATE_NEWCASE_PHASE, TEST_FAIL_STATUS)
                                 (CREATE_NEWCASE_PHASE, TEST_PASS_STATUS)) ''SMS.f09.X''
        (Some XML_PHASE) = Inr TEST_PEND_STATUS
   \<and> get_procs_needed quiet_externals
        (two_tests (CREATE_NEWCASE_PHASE, TEST_FAIL_STATUS)
                   (CREATE_NEWCASE_PHASE, TEST_PASS_STATUS)) ''ERS.f09.X'' XML_PHASE
        (Some []) False = Inr None
   \<and> get_test_status (two_tests (CREATE_NEWCASE_PHASE, TEST_FAIL_STATUS)
                                 (CREATE_NEWCASE_PHASE, TEST_PASS_STATUS)) ''SMS.f09.X''
        (Some TEST_START) = Inr TEST_PASS_STATUS
   \<and> get_test_status (two_tests (CREATE_NEWCASE_PHASE, TEST_FAIL_STATUS)
                                 (CREATE_NEWCASE_PHASE, TEST_PASS_STATUS)) ''SMS.f09.X''
        (Some CREATE_NEWCASE_PHASE) = Inr TEST_FAIL_STATUS"
proof -
  let ?s = "two_tests (CREATE_NEWCASE_PHASE, TEST_FAIL_STATUS)
                      (CREATE_NEWCASE_PHASE, TEST_PASS_STATUS)"
  have d: "get_test_data ?s ''SMS.f09.X'' = Inr (CREATE_NEWCASE_PHASE, TEST_FAIL_STATUS)"
    by (simp add: eval_two_tests)
  have g: "get_build_group ?s ''ERS.f09.X''
             = Inr (False, ''SMS.f09.X'', [''SMS.f09.X'', ''ERS.f09.X''])"
    by (simp add: eval_two_tests)
  have i0: "list_index (phases ?s) TEST_START = Some 0"
    by (simp add: eval_phases two_tests_def)
  have i1: "list_index (phases ?s) CREATE_NEWCASE_PHASE = Some 1"
    by (simp add: eval_phases two_tests_def)
  have i2: "list_index (phases ?s) XML_PHASE = Some 2"
    by (simp add: eval_phases two_tests_def)
  have after: "get_test_status ?s ''SMS.f09.X'' (Some XML_PHASE) = Inr TEST_PEND_STATUS
      \<and> get_procs_needed quiet_externals ?s ''ERS.f09.X'' XML_PHASE (Some []) False = Inr None"
    using get_test_status_ignores_history [OF d i1 i2,
        of "''ERS.f09.X''" "[''SMS.f09.X'', ''ERS.f09.X'']" quiet_externals "Some []" False] g
    by simp
  have before: "get_test_status ?s ''SMS.f09.X'' (Some TEST_START) = Inr TEST_PASS_STATUS"
    using get_test_status_ignores_history [OF d i1 i0] by simp
  have same: "get_test_status ?s ''SMS.f09.X'' (Some CREATE_NEWCASE_PHASE) = Inr TEST_FAIL_STATUS"
    using get_test_status_ignores_history [OF d i1 i1] by simp
  show ?thesis using d g after before same by simp
qed

subsection \<open>Updates of the in-memory state\<close>

text \<open>
  Claim C2, as the code has it. \<open>_update_test_status\<close> accepts an update exactly in two
  shapes: on the same phase (a phase of the active list), the old status is \<open>PEND\<close> and the
  new status is anything but \<open>PEND\<close>; or the new phase is the immediate successor of the
  old phase in the active list, the old status is \<open>PASS\<close> and the new status is \<open>PEND\<close>.
  An accepted update stores the new pair; every other update raises.
\<close>

theorem update_test_status_accepts_iff:
  "update_test_status s t ph st = Inr s' \<longleftrightarrow>
     (\<exists>old_phase old_status.
        get_test_data s t = Inr (old_phase, old_status)
        \<and> ((old_phase = ph \<and> ph \<in> set (phases s)
              \<and> old_status = TEST_PEND_STATUS \<and> st \<noteq> TEST_PEND_STATUS)
            \<or> (old_status = TEST_PASS_STATUS \<and> st = TEST_PEND_STATUS
                \<and> (\<exists>i. list_index (phases s) old_phase = Some i
                         \<and> list_index (phases s) ph = Some (Suc i))))
        \<and> s' = set_test_data s t (ph, st))"
proof (cases "list_index (phases s) ph")
  case None
  then show ?thesis
    by (auto simp: update_test_status_def list_index_in_set)
next
  case (Some phase_idx)
  show ?thesis
  proof (cases "get_test_data s t")
    case (Inl e)
    then show ?thesis by (simp add: update_test_status_def Some)
  next
    case (Inr d)
    obtain old_phase old_status where d: "d = (old_phase, old_status)" by (cases d)
    show ?thesis
    proof (cases "old_phase = ph")
      case True
      then show ?thesis
        using Some Inr d by (auto simp: update_test_status_def list_index_in_set)
    next
      case False
      then show ?thesis
        using Some Inr d
        by (cases "list_index (phases s) old_phase")
           (auto simp: update_test_status_def)
    qed
  qed
qed

text \<open>A test that passed \<open>CREATE_NEWCASE\<close> moves on to \<open>XML\<close>, pending.\<close>

theorem update_test_status_accepts_iff_witness:
  "update_test_status (two_tests (CREATE_NEWCASE_PHASE, TEST_PASS_STATUS)
                                 (TEST_START, TEST_PASS_STATUS))
       ''SMS.f09.X'' XML_PHASE TEST_PEND_STATUS
     = Inr (set_test_data (two_tests (CREATE_NEWCASE_PHASE, TEST_PASS_STATUS)
                                     (TEST_START, TEST_PASS_STATUS))
              ''SMS.f09.X'' (XML_PHASE, TEST_PEND_STATUS))"
proof -
  let ?s = "two_tests (CREATE_NEWCASE_PHASE, TEST_PASS_STATUS) (TEST_START, TEST_PASS_STATUS)"
  have d: "get_test_data ?s ''SMS.f09.X'' = Inr (CREATE_NEWCASE_PHASE, TEST_PASS_STATUS)"
    by (simp add: eval_two_tests)
  have i1: "list_index (phases ?s) CREATE_NEWCASE_PHASE = Some 1"
    by (simp add: eval_phases two_tests_def)
  have i2: "list_index (phases ?s) XML_PHASE = Some (Suc 1)"
    by (simp add: eval_phases two_tests_def)
  show ?thesis
    by (rule update_test_status_accepts_iff [THEN iffD2]) (use d i1 i2 in blast)
qed

text \<open>
  The claim as the spec words it allows, on the same phase, only \<open>PEND\<close> to \<open>PASS\<close> or
  \<open>FAIL\<close>. The code compares the new status with \<open>PEND\<close> only: a pending \<open>XML\<close> is
  moved to the status \<open>RERUN\<close>, which is neither.
\<close>

theorem update_test_status_accepts_other_status:
  "get_test_data (two_tests (XML_PHASE, TEST_PEND_STATUS) (TEST_START, TEST_PASS_STATUS))
       ''SMS.f09.X'' = Inr (XML_PHASE, TEST_PEND_STATUS)
   \<and> update_test_status (two_tests (XML_PHASE, TEST_PEND_STATUS) (TEST_START, TEST_PASS_STATUS))
       ''SMS.f09.X'' XML_PHASE (OTHER_STATUS ''RERUN'')
     = Inr (set_test_data (two_tests (XML_PHASE, TEST_PEND_STATUS) (TEST_START, TEST_PASS_STATUS))
              ''SMS.f09.X'' (XML_PHASE, OTHER_STATUS ''RERUN''))
   \<and> OTHER_STATUS ''RERUN'' \<noteq> TEST_PASS_STATUS
   \<and> OTHER_STATUS ''RERUN'' \<noteq> TEST_FAIL_STATUS"
  by (simp add: update_test_status_def eval_two_tests eval_phases)

subsection \<open>The retry on a busy interpreter\<close>

lemma shell_step_retry:
  assumes "bad_interpreter (run_cmd ext (cmd_calls s) cmd)"
  shows "shell_cmd_for_phase ext t cmd ph s =
         shell_cmd_for_phase ext t cmd ph
           ((log_output (s\<lparr>cmd_calls := Suc (cmd_calls s)\<rparr>) t
               (phase_log_message (phase_name ph) ''FAILED'' t cmd
                  (fst (snd (run_cmd ext (cmd_calls s) cmd)))
                  (snd (snd (run_cmd ext (cmd_calls s) cmd)))))
             \<lparr>slept := slept s + 1\<rparr>)"
  using assms
  by (subst shell_cmd_for_phase.simps) (auto simp: bad_interpreter_def split: prod.splits)

lemma shell_step_return:
  assumes "\<not> bad_interpreter (run_cmd ext (cmd_calls s) cmd)"
  shows "\<exists>s'. shell_cmd_for_phase ext t cmd ph s =
           Some ((fst (run_cmd ext (cmd_calls s) cmd) = 0,
                  snd (snd (run_cmd ext (cmd_calls s) cmd))), s')
         \<and> cmd_calls s' = cmd_calls s + 1 \<and> slept s' = slept s
         \<and> length (test_logs s' t) = length (test_logs s t) + 1"
  using assms
  by (subst shell_cmd_for_phase.simps)
     (auto simp: bad_interpreter_def log_output_def split: prod.splits)

lemma shell_returns_after_retries:
  assumes "\<forall>i<n. bad_interpreter (run_cmd ext (cmd_calls s + i) cmd)"
      and "\<not> bad_interpreter (run_cmd ext (cmd_calls s + n) cmd)"
  shows "\<exists>s'. shell_cmd_for_phase ext t cmd ph s =
           Some ((fst (run_cmd ext (cmd_calls s + n) cmd) = 0,
                  snd (snd (run_cmd ext (cmd_calls s + n) cmd))), s')
         \<and> cmd_calls s' = cmd_calls s + n + 1 \<and> slept s' = slept s + n
         \<and> length (test_logs s' t) = length (test_logs s t) + n + 1"
  using assms
proof (induction n arbitrary: s)
  case 0
  then show ?case using shell_step_return [of ext s cmd t ph] by simp
next
  case (Suc n)
  let ?s1 = "(log_output (s\<lparr>cmd_calls := Suc (cmd_calls s)\<rparr>) t
               (phase_log_message (phase_name ph) ''FAILED'' t cmd
                  (fst (snd (run_cmd ext (cmd_calls s) cmd)))
                  (snd (snd (run_cmd ext (cmd_calls s) cmd)))))
             \<lparr>slept := slept s + 1\<rparr>"
  have b0: "bad_interpreter (run_cmd ext (cmd_calls s) cmd)"
    using Suc.prems(1) by (metis add.right_neutral zero_less_Suc)
  have c1: "cmd_calls ?s1 = Suc (cmd_calls s)" by (simp add: log_output_def)
  have h1: "\<forall>i<n. bad_interpreter (run_cmd ext (cmd_calls ?s1 + i) cmd)"
    using Suc.prems(1) c1 by (metis Suc_less_eq add_Suc_shift)
  have h2: "\<not> bad_interpreter (run_cmd ext (cmd_calls ?s1 + n) cmd)"
    using Suc.prems(2) c1 by simp
  from Suc.IH [OF h1 h2] obtain s' where
    s': "shell_cmd_for_phase ext t cmd ph ?s1 =
           Some ((fst (run_cmd ext (cmd_calls ?s1 + n) cmd) = 0,
                  snd (snd (run_cmd ext (cmd_calls ?s1 + n) cmd))), s')"
      "cmd_calls s' = cmd_calls ?s1 + n + 1" "slept s' = slept ?s1 + n"
      "length (test_logs s' t) = length (test_logs ?s1 t) + n + 1"
    by blast
  show ?case
    using s' shell_step_retry [OF b0, of t ph] c1
    by (auto simp: log_output_def)
qed

lemma shell_returns_only_after_other_outcome:
  assumes r: "shell_cmd_for_phase ext t cmd ph s = Some y"
  shows "\<exists>i. \<not> bad_interpreter (run_cmd ext (cmd_calls s + i) cmd)"
proof (rule shell_cmd_for_phase.raw_induct
         [where P = "\<lambda>ext t cmd ph s y.
                       \<exists>i. \<not> bad_interpreter (run_cmd ext (cmd_calls s + i) cmd)",
          OF _ r], goal_cases)
  case (1 f ext t cmd ph s y)
  show ?case
  proof (cases "bad_interpreter (run_cmd ext (cmd_calls s) cmd)")
    case False
    then show ?thesis by (metis add.right_neutral)
  next
    case True
    let ?s1 = "(log_output (s\<lparr>cmd_calls := Suc (cmd_calls s)\<rparr>) t
               (phase_log_message (phase_name ph) ''FAILED'' t cmd
                  (fst (snd (run_cmd ext (cmd_calls s) cmd)))
                  (snd (snd (run_cmd ext (cmd_calls s) cmd)))))
             \<lparr>slept := slept s + 1\<rparr>"
    have "f ext t cmd ph ?s1 = Some y"
      using True 1(2) by (auto simp: bad_interpreter_def split: prod.splits if_splits)
    from 1(1) [OF this]
    obtain i where "\<not> bad_interpreter (run_cmd ext (cmd_calls ?s1 + i) cmd)"
      by blast
    then have "\<not> bad_interpreter (run_cmd ext (cmd_calls s + Suc i) cmd)"
      by (simp add: log_output_def)
    then show ?thesis by blast
  qed
qed

text \<open>
  Claim C4, as the code has it. The phase runner runs the command again, after a sleep
  of one second, after every run that exits non-zero with \<open>bad interpreter\<close> in its
  output, without a bound on the number of runs. If the first \<open>n\<close> runs fail so and run
  \<open>n + 1\<close> does not, the runner returns after exactly \<open>n + 1\<close> runs and \<open>n\<close> sleeps, with
  one log entry per run: \<open>True\<close> if that last run exits with zero, else \<open>False\<close>, each
  with the run's error output. If every run fails so, the runner never returns.
\<close>

theorem shell_cmd_for_phase_retries_without_bound:
  "((\<forall>i<n. bad_interpreter (run_cmd ext (cmd_calls s + i) cmd))
      \<and> \<not> bad_interpreter (run_cmd ext (cmd_calls s + n) cmd)
    \<longrightarrow> (\<exists>s'. shell_cmd_for_phase ext t cmd ph s =
                 Some ((fst (run_cmd ext (cmd_calls s + n) cmd) = 0,
                        snd (snd (run_cmd ext (cmd_calls s + n) cmd))), s')
               \<and> cmd_calls s' = cmd_calls s + n + 1 \<and> slept s' = slept s + n
               \<and> length (test_logs s' t) = length (test_logs s t) + n + 1))
   \<and> ((\<forall>i. bad_interpreter (run_cmd ext (cmd_calls s + i) cmd))
      \<longrightarrow> shell_cmd_for_phase ext t cmd ph s = None)"
proof (intro conjI impI)
  assume "(\<forall>i<n. bad_interpreter (run_cmd ext (cmd_calls s + i) cmd))
      \<and> \<not> bad_interpreter (run_cmd ext (cmd_calls s + n) cmd)"
  then show "\<exists>s'. shell_cmd_for_phase ext t cmd ph s =
                 Some ((fst (run_cmd ext (cmd_calls s + n) cmd) = 0,
                        snd (snd (run_cmd ext (cmd_calls s + n) cmd))), s')
               \<and> cmd_calls s' = cmd_calls s + n + 1 \<and> slept s' = slept s + n
               \<and> length (test_logs s' t) = length (test_logs s t) + n + 1"
    using shell_returns_after_retries [of n ext s cmd t ph] by blast
next
  assume "\<forall>i. bad_interpreter (run_cmd ext (cmd_calls s + i) cmd)"
  then show "shell_cmd_for_phase ext t cmd ph s = None"
    using shell_returns_only_after_other_outcome [of ext t cmd ph s]
    by (cases "shell_cmd_for_phase ext t cmd ph s") auto
qed

text \<open>
  One busy run, then a run that fails for another reason: two runs, one sleep, failure
  with the second run's error output. And in the environment that is busy for ever,
  \<open>case.setup\<close> never returns.
\<close>

theorem shell_cmd_for_phase_retries_without_bound_witness:
  "map_option (\<lambda>(r, s'). (r, cmd_calls s', slept s'))
     (shell_cmd_for_phase (flaky_externals 1 (2, ''gmake: *** [Makefile] Error 2'', ''Error 2''))
        ''SMS.f09.X'' ''./case.setup'' SETUP_PHASE
        (two_tests (SETUP_PHASE, TEST_PEND_STATUS) (TEST_START, TEST_PASS_STATUS)))
     = Some ((False, ''Error 2''), 2, 1)
   \<and> shell_cmd_for_phase stuck_externals ''SMS.f09.X'' ''./case.setup'' SETUP_PHASE
        (two_tests (SETUP_PHASE, TEST_PEND_STATUS) (TEST_START, TEST_PASS_STATUS)) = None"
proof -
  let ?ext = "flaky_externals 1 (2, ''gmake: *** [Makefile] Error 2'', ''Error 2'')"
  let ?s = "two_tests (SETUP_PHASE, TEST_PEND_STATUS) (TEST_START, TEST_PASS_STATUS)"
  have c: "cmd_calls ?s = 0" "slept ?s = 0" by (simp_all add: two_tests_def)
  have b: "\<forall>i<1. bad_interpreter (run_cmd ?ext (cmd_calls ?s + i) ''./case.setup'')"
    by (simp add: c bad_interpreter_def flaky_externals_def quiet_externals_def)
  have nb: "\<not> bad_interpreter (run_cmd ?ext (cmd_calls ?s + 1) ''./case.setup'')"
    by (simp add: c bad_interpreter_def flaky_externals_def quiet_externals_def)
  have last: "run_cmd ?ext (cmd_calls ?s + 1) ''./case.setup''
                = (2, ''gmake: *** [Makefile] Error 2'', ''Error 2'')"
    by (simp add: c flaky_externals_def quiet_externals_def)
  have stuck: "\<forall>i. bad_interpreter (run_cmd stuck_externals (cmd_calls ?s + i) ''./case.setup'')"
    by (simp add: bad_interpreter_def stuck_externals_def quiet_externals_def)
  note th = shell_cmd_for_phase_retries_without_bound
  from th [of 1 ?ext ?s "''./case.setup''" "''SMS.f09.X''" SETUP_PHASE] b nb
  obtain s' where
    "shell_cmd_for_phase ?ext ''SMS.f09.X'' ''./case.setup'' SETUP_PHASE ?s =
       Some ((fst (run_cmd ?ext (cmd_calls ?s + 1) ''./case.setup'') = 0,
              snd (snd (run_cmd ?ext (cmd_calls ?s + 1) ''./case.setup''))), s')"
    "cmd_calls s' = cmd_calls ?s + 1 + 1" "slept s' = slept ?s + 1"
    by blast
  moreover have last': "run_cmd ?ext (Suc 0) ''./case.setup''
                = (2, ''gmake: *** [Makefile] Error 2'', ''Error 2'')"
    by (simp add: flaky_externals_def quiet_externals_def)
  ultimately have first: "map_option (\<lambda>(r, s'). (r, cmd_calls s', slept s'))
     (shell_cmd_for_phase ?ext ''SMS.f09.X'' ''./case.setup'' SETUP_PHASE ?s)
     = Some ((False, ''Error 2''), 2, 1)"
    by (simp add: last c)
  have second: "shell_cmd_for_phase stuck_externals ''SMS.f09.X'' ''./case.setup'' SETUP_PHASE ?s
                  = None"
    using th [of 0 stuck_externals ?s "''./case.setup''" "''SMS.f09.X''" SETUP_PHASE] stuck
    by blast
  show ?thesis using first second by simp
qed

text \<open>
  The claim as the spec words it bounds the re-invocations by one and lets a second
  failure end the phase. Here the first two runs both fail on a busy script; the runner
  runs the command a third time and returns success, after three runs and two sleeps.
\<close>

theorem shell_cmd_for_phase_runs_a_third_time:
  "bad_interpreter (run_cmd (flaky_externals 2 (0, [], [])) 0 ''./case.setup'')
   \<and> bad_interpreter (run_cmd (flaky_externals 2 (0, [], [])) 1 ''./case.setup'')
   \<and> map_option (\<lambda>(r, s'). (r, cmd_calls s', slept s'))
        (shell_cmd_for_phase (flaky_externals 2 (0, [], []))
           ''SMS.f09.X'' ''./case.setup'' SETUP_PHASE
           (two_tests (SETUP_PHASE, TEST_PEND_STATUS) (TEST_START, TEST_PASS_STATUS)))
      = Some ((True, []), 3, 2)"
  by (simp add: shell_cmd_for_phase.simps bad_interpreter_def flaky_externals_def
        quiet_externals_def two_tests_def log_output_def)

subsection \<open>Rounding to a double\<close>

lemma bit_length_le: "n < 2 ^ k \<Longrightarrow> bit_length n \<le> k"
proof (induction k arbitrary: n)
  case 0
  then show ?case by (simp add: bit_length.simps)
next
  case (Suc k)
  show ?case
  proof (cases "n \<le> 0")
    case True
    then show ?thesis by (simp add: bit_length.simps)
  next
    case False
    have "n div 2 < 2 ^ k" using Suc.prems by auto
    then have "bit_length (n div 2) \<le> k" by (rule Suc.IH)
    then show ?thesis using False by (subst bit_length.simps) simp
  qed
qed

lemma bit_length_bound: "n < 2 ^ bit_length n"
proof (induction n rule: bit_length.induct)
  case (1 n)
  show ?case
  proof (cases "n \<le> 0")
    case True
    have "(0::int) < 2 ^ bit_length n" by simp
    with True show ?thesis by linarith
  next
    case False
    then have "n div 2 < 2 ^ bit_length (n div 2)" by (rule 1)
    then have "n < 2 * 2 ^ bit_length (n div 2)" by linarith
    then show ?thesis using False by (subst bit_length.simps) simp
  qed
qed

text \<open>An int below \<open>2 ^ 53\<close> is a double.\<close>

lemma nearest_double_exact: "n < 2 ^ 53 \<Longrightarrow> nearest_double n sticky = n"
  using bit_length_le [of n 53] by (simp add: nearest_double_def)

text \<open>Below \<open>2 ^ 55\<close> the doubles are at most 4 apart, and every multiple of 4 is one.\<close>

lemma nearest_double_near:
  assumes "n < 2 ^ 55"
  shows "n - 4 < nearest_double n sticky \<and> nearest_double n sticky < n + 5"
proof -
  define u :: int where "u = 2 ^ (bit_length n - 53)"
  have "bit_length n - 53 \<le> 2"
    using bit_length_le [OF assms] by simp
  then have "u \<le> 2 ^ 2"
    unfolding u_def by (intro power_increasing) simp_all
  then have u4: "u \<le> 4" by simp
  have u0: "0 < u" by (simp add: u_def)
  have "n div u * u + n mod u = n" by simp
  moreover have "0 \<le> n mod u" "n mod u < u" using u0 by simp_all
  ultimately have lo: "n div u * u \<le> n" and hi: "n < n div u * u + u"
    by linarith+
  have "nearest_double n sticky = n div u * u \<or> nearest_double n sticky = (n div u + 1) * u"
    by (simp add: nearest_double_def Let_def u_def)
  moreover have "(n div u + 1) * u = n div u * u + u" by (simp add: algebra_simps)
  ultimately show ?thesis using lo hi u4 by auto
qed

lemma nearest_double_multiple:
  assumes "n < 2 ^ 55" and "n mod 4 = 0"
  shows "nearest_double n sticky = n"
proof -
  define e where "e = bit_length n - 53"
  have e: "e \<le> 2"
    using bit_length_le [OF assms(1)] by (simp add: e_def)
  have "(2::int) ^ e dvd 2 ^ 2" using e by (rule le_imp_power_dvd)
  moreover have "(4::int) dvd n" using assms(2) by presburger
  ultimately have "(2::int) ^ e dvd n" by (auto elim: dvd_trans)
  then have "n mod 2 ^ e = 0" "n div 2 ^ e * 2 ^ e = n" by auto
  then show ?thesis
    by (simp add: nearest_double_def Let_def e_def [symmetric])
qed

text \<open>
  For \<open>0 \<le> a < 2 ^ 51\<close> the double nearest to \<open>a / 3\<close> has the integer part of \<open>a / 3\<close>:
  the quotient ends in no fraction, in a third or in two thirds, and the doubles around
  it lie much closer than a third.
\<close>

lemma int_of_third_floor:
  assumes "0 \<le> a" and "a < 2 ^ 51"
  shows "int_of_third a = Inr \<lfloor>real_of_int a / 3\<rfloor>"
proof -
  define k where "k = 56 - bit_length \<bar>a\<bar>"
  define P :: int where "P = 2 ^ k"
  define j where "j = a div 3"
  define A where "A = a * P"
  define N where "N = A div 3"
  define q where "q = nearest_double N (A mod 3 \<noteq> 0)"
  have bl: "bit_length \<bar>a\<bar> \<le> 51"
    using assms by (intro bit_length_le) simp
  then have k5: "5 \<le> k" and kk: "bit_length \<bar>a\<bar> + k = 56"
    by (simp_all add: k_def)
  have "\<bar>a\<bar> < 2 ^ bit_length \<bar>a\<bar>" by (rule bit_length_bound)
  then have "a * P < 2 ^ bit_length \<bar>a\<bar> * P"
    using assms(1) by (simp add: P_def)
  also have "\<dots> = 2 ^ 56"
    unfolding P_def power_add [symmetric] kk ..
  finally have A56: "A < 2 ^ 56" by (simp add: A_def)
  then have N55: "N < 2 ^ 55"
    unfolding N_def by simp
  have p32: "32 \<le> P"
    using power_increasing [OF k5, of "2::int"] by (simp add: P_def)
  have "(2::int) ^ 2 dvd 2 ^ k" using k5 by (intro le_imp_power_dvd) simp
  then have p4: "4 dvd P" by (simp add: P_def)
  have near: "N - 4 < q" "q < N + 5"
    using nearest_double_near [OF N55] by (simp_all add: q_def)
  have a3: "a = 3 * j + a mod 3"
    by (simp add: j_def)
  have A3: "A = 3 * (j * P) + (a mod 3) * P"
    unfolding A_def by (subst a3) (simp add: algebra_simps)
  have range: "j * P \<le> q \<and> q < j * P + P"
  proof (cases "a mod 3 = 0")
    case True
    then have N: "N = j * P" using A3 by (simp add: N_def)
    have "4 dvd N" unfolding N using p4 by simp
    then have "N mod 4 = 0" by presburger
    with N55 have "q = N"
      unfolding q_def by (rule nearest_double_multiple)
    then show ?thesis using N p32 by simp
  next
    case False
    then have "a mod 3 = 1 \<or> a mod 3 = 2" by presburger
    then have "A = 3 * (j * P) + P \<or> A = 3 * (j * P) + 2 * P"
      using A3 by auto
    then have "j * P + 10 \<le> N \<and> N + 5 \<le> j * P + P"
      unfolding N_def using p32 by linarith
    then show ?thesis using near by linarith
  qed
  have qdiv: "q div P = j"
  proof (rule int_div_pos_eq [where r = "q - j * P"])
    show "q = P * j + (q - j * P)" by simp
  qed (use range in simp_all)
  have "q < 2 ^ 55 + 5" using near N55 by linarith
  also have "\<dots> < (2::int) ^ 1024" by simp
  also have "\<dots> \<le> 2 ^ (1024 + k)" by (intro power_increasing) simp_all
  finally have noov: "\<not> 2 ^ (1024 + k) \<le> q" by simp
  have sg: "sgn a * j = j"
    using assms(1) by (cases "a = 0") (simp_all add: j_def sgn_if)
  have fl: "j = \<lfloor>real_of_int a / 3\<rfloor>"
    using floor_divide_of_int_eq [of a 3, where ?'a = real] by (simp add: j_def)
  have abs: "\<bar>a\<bar> = a" using assms(1) by simp
  have "int_of_third a = (if 2 ^ (1024 + k) \<le> q then Inl OverflowError
                          else Inr (sgn a * (q div P)))"
    by (simp add: int_of_third_def Let_def q_def N_def A_def P_def k_def abs)
  then show ?thesis
    using noov qdiv sg fl by simp
qed

text \<open>For \<open>0 \<le> n < 2 ^ 50\<close> both \<open>n\<close> and \<open>5 n / 4\<close> are doubles: the product is exact.\<close>

lemma int_of_times_1_25_floor:
  assumes "0 \<le> n" and "n < 2 ^ 50"
  shows "int_of_times_1_25 n = Inr \<lfloor>1.25 * real_of_int n\<rfloor>"
proof -
  have a: "nearest_double \<bar>n\<bar> False = n"
    using assms by (simp add: nearest_double_exact)
  have b: "nearest_double (5 * n) False = 5 * n"
    using assms by (simp add: nearest_double_exact)
  have c: "(5 * n) div 4 = \<lfloor>1.25 * real_of_int n\<rfloor>"
    using floor_divide_of_int_eq [of "5 * n" 4, where ?'a = real] by (simp add: field_simps)
  have d: "sgn n * ((5 * n) div 4) = (5 * n) div 4"
    using assms by (cases "n = 0") (simp_all add: sgn_if)
  show ?thesis
    using assms a b c d by (simp add: int_of_times_1_25_def Let_def)
qed

subsection \<open>The cost of a model build\<close>

text \<open>
  The cost set at construction is \<open>min(16, floor(2 GMAKE_J / 3) + 1)\<close> when the
  configuration computes it (for a \<open>GMAKE_J\<close> from 0 to below \<open>2 ^ 50\<close>) and 4
  otherwise, and the stored cost is what the cost query answers for \<open>MODEL_BUILD\<close> of a
  group leader.
\<close>

lemma init_model_build_cost_formula:
  "0 \<le> gmake_j \<Longrightarrow> gmake_j < 2 ^ 50 \<Longrightarrow>
     init_model_build_cost True gmake_j
       = Inr (min 16 (\<lfloor>2 * real_of_int gmake_j / 3\<rfloor> + 1))"
  "init_model_build_cost False gmake_j = Inr 4"
  using int_of_third_floor [of "gmake_j * 2"]
  by (simp_all add: init_model_build_cost_def mult.commute)

lemma leader_model_build_cost:
  "get_build_group s t = Inr (True, l, g) \<Longrightarrow>
     get_procs_needed ext s t MODEL_BUILD_PHASE tif False = Inr (Some (model_build_cost s))"
  by (simp add: get_procs_needed_def)

text \<open>
  The stored cost is one field for all tests. An \<open>XML\<close> phase that returns leaves it at
  the minimum of what it was and the pool, and has set \<open>GMAKE_J\<close> in its case only if
  the stored cost was above the pool. So once an \<open>XML\<close> phase has returned, no later
  one sets \<open>GMAKE_J\<close> in its case.
\<close>

lemma xml_phase_clamp:
  assumes "xml_phase ext t s = Some (Returned ok e, s')"
  shows "proc_pool s' = proc_pool s
       \<and> model_build_cost s' = min (model_build_cost s) (proc_pool s)
       \<and> gmake_j_values s' t =
           (if proc_pool s < model_build_cost s
            then gmake_j_values s t @ [(''GMAKE_J'', IntVal (proc_pool s))]
            else gmake_j_values s t)"
  using assms
  by (auto simp: xml_phase_def case_set_value_def gmake_j_values_def
           split: option.splits sum.splits prod.splits if_splits)

lemma later_xml_phase_sets_no_gmake_j:
  assumes "xml_phase ext t s = Some (Returned ok e, s1)"
      and "xml_phase ext u s1 = Some (Returned ok' e', s2)"
  shows "gmake_j_values s2 u = gmake_j_values s1 u"
  using xml_phase_clamp [OF assms(1)] xml_phase_clamp [OF assms(2)] by simp

text \<open>
  Claim C8. The claim has \<open>GMAKE_J\<close> of the case clamped to the budget at the \<open>XML\<close>
  phase whenever the model-build cost exceeds the budget. Two tests, each leading a
  build group of its own, on a machine with \<open>GMAKE_J = 8\<close> and with \<open>proc_pool = 4\<close>
  given: the cost of a model build is 6, above the budget of 4. The \<open>XML\<close> phase of the
  first test sets \<open>GMAKE_J\<close> of its case to 4 and lowers the stored cost to 4. The \<open>XML\<close>
  phase of the second test then finds the stored cost no longer above the budget and
  sets nothing: the second case keeps the machine's \<open>GMAKE_J\<close> of 8, and its model build
  is charged 4 cores.
\<close>

theorem gmake_j_clamped_for_first_case_only:
  "init_model_build_cost True 8 = Inr (model_build_cost two_leaders)
   \<and> init_proc_pool (Some 4) 36 = Inr (proc_pool two_leaders)
   \<and> model_build_cost two_leaders = 6
   \<and> proc_pool two_leaders = 4
   \<and> get_build_group two_leaders ''SMS.f09.X'' = Inr (True, ''SMS.f09.X'', [''SMS.f09.X''])
   \<and> get_build_group two_leaders ''ERS.f09.X'' = Inr (True, ''ERS.f09.X'', [''ERS.f09.X''])
   \<and> xml_phase quiet_externals ''SMS.f09.X'' two_leaders
        = Some (Returned True [], first_xml_done)
   \<and> case_values first_xml_done ''SMS.f09.X'' = [(''GMAKE_J'', IntVal 4)]
   \<and> model_build_cost first_xml_done = 4
   \<and> xml_phase quiet_externals ''ERS.f09.X'' first_xml_done
        = Some (Returned True [], second_xml_done)
   \<and> case_values second_xml_done ''ERS.f09.X'' = []
   \<and> get_procs_needed quiet_externals second_xml_done ''ERS.f09.X'' MODEL_BUILD_PHASE
        (Some []) False = Inr (Some 4)"
proof -
  have cost: "init_model_build_cost True 8 = Inr 6"
    by code_simp
  have pool: "init_proc_pool (Some 4) 36 = Inr 4"
    by (simp add: init_proc_pool_def)
  have start: "model_build_cost two_leaders = 6 \<and> proc_pool two_leaders = 4"
    by (simp add: two_leaders_def two_tests_def)
  have grp: "get_build_group two_leaders ''SMS.f09.X'' = Inr (True, ''SMS.f09.X'', [''SMS.f09.X''])
      \<and> get_build_group two_leaders ''ERS.f09.X'' = Inr (True, ''ERS.f09.X'', [''ERS.f09.X''])"
    by (simp add: get_build_group_def two_leaders_def two_tests_def)
  have first: "xml_phase quiet_externals ''SMS.f09.X'' two_leaders
        = Some (Returned True [], first_xml_done)"
    by (simp add: xml_phase_def quiet_externals_def get_build_group_def case_set_value_def
          two_leaders_def two_tests_def first_xml_done_def)
  have after_first: "case_values first_xml_done ''SMS.f09.X'' = [(''GMAKE_J'', IntVal 4)]
      \<and> model_build_cost first_xml_done = 4"
    by (simp add: first_xml_done_def)
  have second: "xml_phase quiet_externals ''ERS.f09.X'' first_xml_done
        = Some (Returned True [], second_xml_done)"
    by (simp add: xml_phase_def quiet_externals_def get_build_group_def case_set_value_def
          two_leaders_def two_tests_def first_xml_done_def second_xml_done_def)
  have after_second: "case_values second_xml_done ''ERS.f09.X'' = []
      \<and> get_procs_needed quiet_externals second_xml_done ''ERS.f09.X'' MODEL_BUILD_PHASE
           (Some []) False = Inr (Some 4)"
    by (simp add: get_procs_needed_def get_build_group_def
          two_leaders_def two_tests_def first_xml_done_def second_xml_done_def)
  show ?thesis
    using cost pool start grp first after_first second after_second by simp
qed

subsection \<open>The core budget and the worker slots\<close>

text \<open>
  Claim C9, as the code has it. Without an explicit \<open>proc_pool\<close> the core budget is
  \<open>floor(1.25 MAX_TASKS_PER_NODE)\<close>, for a task count from 0 to below \<open>2 ^ 50\<close>, where
  the product of the source, a double, is exact; an explicit \<open>proc_pool\<close> is taken as it
  is. Without an explicit \<open>parallel_jobs\<close> the number of worker slots is the minimum of the
  number of test names given and the machine's limit (\<open>NTEST_PARALLEL_JOBS\<close>, or
  \<open>MAX_MPITASKS_PER_NODE\<close> when that is unset); an explicit \<open>parallel_jobs\<close> is taken as
  it is, with no cap.
\<close>

theorem pools_at_construction:
  "(0 \<le> pes \<and> pes < 2 ^ 50 \<longrightarrow>
      init_proc_pool None pes = Inr \<lfloor>1.25 * real_of_int pes\<rfloor>)
   \<and> init_proc_pool (Some p) pes = Inr p
   \<and> init_parallel_jobs None names ntest mpn
        = min (int (length names)) (case ntest of None \<Rightarrow> mpn | Some j \<Rightarrow> j)
   \<and> init_parallel_jobs (Some j) names ntest mpn = j"
  using int_of_times_1_25_floor [of pes]
  by (auto simp: init_proc_pool_def init_parallel_jobs_def)

text \<open>36 tasks per node give a budget of 45 cores, and 3 tasks per node one of 3.\<close>

theorem pools_at_construction_witness:
  "init_proc_pool None 36 = Inr 45 \<and> init_proc_pool None 3 = Inr 3
   \<and> init_parallel_jobs None [''SMS.f09.X'', ''ERS.f09.X''] (Some 4) 16 = 2"
proof -
  have a: "init_proc_pool None 36 = Inr 45"
    using pools_at_construction [THEN conjunct1, rule_format, of 36] by simp
  have b: "init_proc_pool None 3 = Inr 3"
    using pools_at_construction [THEN conjunct1, rule_format, of 3] by simp
  have c: "init_parallel_jobs None [''SMS.f09.X'', ''ERS.f09.X''] (Some 4) 16 = 2"
    using pools_at_construction [THEN conjunct2, THEN conjunct2, THEN conjunct1,
            of "[''SMS.f09.X'', ''ERS.f09.X'']" "Some 4" 16]
    by simp
  show ?thesis using a b c by simp
qed

text \<open>
  The claim as the spec words it caps the worker slots at the minimum of the number of
  tests and the machine's limit. With \<open>parallel_jobs = 8\<close> given, one test and a machine
  limit of 4, the scheduler has 8 slots.
\<close>

theorem explicit_parallel_jobs_is_not_capped:
  "init_parallel_jobs (Some 8) [''SMS.f09.X''] (Some 4) 16 = 8
   \<and> \<not> (init_parallel_jobs (Some 8) [''SMS.f09.X''] (Some 4) 16
          \<le> min (int (length [''SMS.f09.X''])) 4)"
  by (simp add: init_parallel_jobs_def)

text \<open>
  Why the task count is bounded: from \<open>2 ^ 53 / 5\<close> on the product is rounded. For a
  task count of 7205759403792795 the exact \<open>5 n / 4\<close> ends in three quarters and lies
  between two doubles; the budget is the upper one, one more than the floor.
\<close>

lemma proc_pool_of_a_rounded_product:
  "init_proc_pool None 7205759403792795 = Inr 9007199254740994
   \<and> \<lfloor>1.25 * real_of_int 7205759403792795\<rfloor> = (9007199254740993 :: int)"
proof -
  have "init_proc_pool None 7205759403792795 = Inr 9007199254740994"
    by code_simp
  moreover have "(1.25 :: real) * real_of_int 7205759403792795
                   = real_of_int 9007199254740993 + 3 / 4"
    by simp
  then have "\<lfloor>1.25 * real_of_int 7205759403792795\<rfloor> = (9007199254740993 :: int)"
    by (simp add: floor_eq_iff del: of_int_numeral)
  ultimately show ?thesis by simp
qed

subsection \<open>Frame facts of the state updates\<close>

lemma distinct_phases: "distinct (phases s)"
  by (simp add: eval_phases Let_def)

lemma list_index_nth: "distinct xs \<Longrightarrow> i < length xs \<Longrightarrow> list_index xs (xs ! i) = Some i"
proof (induction xs arbitrary: i)
  case Nil
  then show ?case by simp
next
  case (Cons x xs)
  then show ?case by (cases i) auto
qed

lemma phases_set_test_data [simp]: "phases (set_test_data s t d) = phases s"
  by (simp add: phases_def set_test_data_def)

lemma phases_update_test_status_file [simp]:
  "phases (update_test_status_file ext s t ph st) = phases s"
  by (simp add: phases_def update_test_status_file_def)

lemma phases_log_output [simp]: "phases (log_output s t m) = phases s"
  by (simp add: phases_def log_output_def)

lemma get_test_data_set_test_data [simp]:
  "get_test_data (set_test_data s t d) u = (if u = t then Inr d else get_test_data s u)"
  by (simp add: get_test_data_def set_test_data_def update_conv')

lemma get_test_data_update_test_status_file [simp]:
  "get_test_data (update_test_status_file ext s t ph st) u = get_test_data s u"
  by (simp add: get_test_data_def update_test_status_file_def)

lemma get_test_data_log_output [simp]: "get_test_data (log_output s t m) u = get_test_data s u"
  by (simp add: get_test_data_def log_output_def)

lemma update_test_status_next:
  assumes "get_test_data s t = Inr (old_phase, TEST_PASS_STATUS)"
      and "list_index (phases s) old_phase = Some i"
      and "list_index (phases s) ph = Some (Suc i)"
  shows "update_test_status s t ph TEST_PEND_STATUS = Inr (set_test_data s t (ph, TEST_PEND_STATUS))"
proof -
  have "old_phase \<noteq> ph" using assms(2,3) by auto
  then show ?thesis using assms by (simp add: update_test_status_def)
qed

lemma update_test_status_done:
  assumes "get_test_data s t = Inr (ph, TEST_PEND_STATUS)"
      and "ph \<in> set (phases s)"
      and "st \<noteq> TEST_PEND_STATUS"
  shows "update_test_status s t ph st = Inr (set_test_data s t (ph, st))"
  using assms by (auto simp: update_test_status_def list_index_in_set)

subsection \<open>A phase that asks for more than the pool\<close>

text \<open>
  Claim C5. Let the next phase of a test that is not pending cost more than the whole
  pool. If that phase is not \<open>RUN\<close> the launch raises (a fatal error). If it is \<open>RUN\<close>, and
  the test passed its phase, the launch returns \<open>True\<close> with \<open>threads_in_flight\<close> as it
  was (no worker is started) and the free cores as they were; it has written
  \<open>SUBMIT = PASS\<close> and then \<open>RUN = FAIL\<close> to the test's status file, the in-memory state of the
  test is \<open>(RUN, FAIL)\<close>, the diagnostic is appended to the test's log, and the state of
  every other test is untouched.
\<close>

theorem over_pool_launch:
  assumes "get_test_data s t = Inr (test_phase, test_status)"
      and "test_status \<noteq> TEST_PEND_STATUS"
      and "list_index (phases s) test_phase = Some idx"
      and "idx + 1 < length (phases s)"
      and "get_procs_needed ext s t (phases s ! (idx + 1)) (Some tif) False = Inr (Some c)"
      and "proc_pool s < c"
  shows "(phases s ! (idx + 1) \<noteq> RUN_PHASE \<longrightarrow>
            producer_indv_test_launch ext s t tif
              = Inl (CIMEError (over_pool_message t (phases s ! (idx + 1)) c)))
       \<and> (phases s ! (idx + 1) = RUN_PHASE \<and> test_status = TEST_PASS_STATUS \<longrightarrow>
            (\<exists>s'. producer_indv_test_launch ext s t tif = Inr (True, s', tif)
               \<and> get_test_data s' t = Inr (RUN_PHASE, TEST_FAIL_STATUS)
               \<and> (\<forall>u. u \<noteq> t \<longrightarrow> get_test_data s' u = get_test_data s u)
               \<and> status_files s' =
                   (status_files s)
                     (t := ts_set_status ext
                             (ts_set_status ext (status_files s t) SUBMIT_PHASE
                                TEST_PASS_STATUS NO_COMMENT)
                             RUN_PHASE TEST_FAIL_STATUS NO_COMMENT)
               \<and> test_logs s' = (test_logs s)(t := test_logs s t @ [over_pool_message t RUN_PHASE c])
               \<and> procs_avail s' = procs_avail s))"
proof (intro conjI impI)
  assume "phases s ! (idx + 1) \<noteq> RUN_PHASE"
  then show "producer_indv_test_launch ext s t tif
              = Inl (CIMEError (over_pool_message t (phases s ! (idx + 1)) c))"
    using assms by (simp add: producer_indv_test_launch_def)
next
  assume run: "phases s ! (idx + 1) = RUN_PHASE \<and> test_status = TEST_PASS_STATUS"
  let ?s2 = "update_test_status_file ext
               (update_test_status_file ext s t SUBMIT_PHASE TEST_PASS_STATUS)
               t RUN_PHASE TEST_FAIL_STATUS"
  let ?s3 = "set_test_data ?s2 t (RUN_PHASE, TEST_PEND_STATUS)"
  let ?s4 = "set_test_data ?s3 t (RUN_PHASE, TEST_FAIL_STATUS)"
  have ir: "list_index (phases s) RUN_PHASE = Some (Suc idx)"
    using list_index_nth [OF distinct_phases assms(4)] run by simp
  have u1: "update_test_status ?s2 t RUN_PHASE TEST_PEND_STATUS = Inr ?s3"
    by (rule update_test_status_next [where old_phase = test_phase and i = idx])
       (use assms(1,3) run ir in simp_all)
  have u2: "update_test_status ?s3 t RUN_PHASE TEST_FAIL_STATUS = Inr ?s4"
    by (rule update_test_status_done) (use ir in \<open>simp_all add: list_index_in_set\<close>)
  have launch: "producer_indv_test_launch ext s t tif
                  = Inr (True, log_output ?s4 t (over_pool_message t RUN_PHASE c), tif)"
    using assms run u1 u2 by (simp add: producer_indv_test_launch_def)
  show "\<exists>s'. producer_indv_test_launch ext s t tif = Inr (True, s', tif)
               \<and> get_test_data s' t = Inr (RUN_PHASE, TEST_FAIL_STATUS)
               \<and> (\<forall>u. u \<noteq> t \<longrightarrow> get_test_data s' u = get_test_data s u)
               \<and> status_files s' =
                   (status_files s)
                     (t := ts_set_status ext
                             (ts_set_status ext (status_files s t) SUBMIT_PHASE
                                TEST_PASS_STATUS NO_COMMENT)
                             RUN_PHASE TEST_FAIL_STATUS NO_COMMENT)
               \<and> test_logs s' = (test_logs s)(t := test_logs s t @ [over_pool_message t RUN_PHASE c])
               \<and> procs_avail s' = procs_avail s"
    unfolding launch
    by (rule exI [of _ "log_output ?s4 t (over_pool_message t RUN_PHASE c)"])
       (simp add: log_output_def set_test_data_def update_test_status_file_def get_test_data_def
          update_conv')
qed

text \<open>
  Without a batch system, on a pool of 2 cores, a case of 4 tasks: the leader passed
  \<open>MODEL_BUILD\<close> and its \<open>RUN\<close> is failed on the spot. With the leader at
  \<open>SHAREDLIB_BUILD\<close> instead, the model build (cost 4) is a fatal error.
\<close>

theorem over_pool_launch_witness:
  "map_sum id
     (\<lambda>(launched, s', tif).
         (launched, get_test_data s' ''SMS.f09.X'', get_test_data s' ''ERS.f09.X'',
          status_files s' ''SMS.f09.X'', test_logs s' ''SMS.f09.X'', procs_avail s', tif))
     (producer_indv_test_launch quiet_externals
        ((two_tests (MODEL_BUILD_PHASE, TEST_PASS_STATUS) (TEST_START, TEST_PASS_STATUS))
           \<lparr>no_batch := True, proc_pool := 2, procs_avail := 2\<rparr>)
        ''SMS.f09.X'' [])
     = Inr (True, Inr (RUN_PHASE, TEST_FAIL_STATUS), Inr (TEST_START, TEST_PASS_STATUS),
            [(SUBMIT_PHASE, TEST_PASS_STATUS, NO_COMMENT), (RUN_PHASE, TEST_FAIL_STATUS, NO_COMMENT)],
            [''Test SMS.f09.X phase RUN requested more (4) than entire pool (self._proc_pool)''],
            2, [])
   \<and> producer_indv_test_launch quiet_externals
        ((two_tests (SHAREDLIB_BUILD_PHASE, TEST_PASS_STATUS) (TEST_START, TEST_PASS_STATUS))
           \<lparr>no_batch := True, proc_pool := 2, procs_avail := 2\<rparr>)
        ''SMS.f09.X'' []
     = Inl (CIMEError
         ''Test SMS.f09.X phase MODEL_BUILD requested more (4) than entire pool (self._proc_pool)'')"
proof -
  let ?a = "(two_tests (MODEL_BUILD_PHASE, TEST_PASS_STATUS) (TEST_START, TEST_PASS_STATUS))
              \<lparr>no_batch := True, proc_pool := 2, procs_avail := 2\<rparr>"
  let ?b = "(two_tests (SHAREDLIB_BUILD_PHASE, TEST_PASS_STATUS) (TEST_START, TEST_PASS_STATUS))
              \<lparr>no_batch := True, proc_pool := 2, procs_avail := 2\<rparr>"
  have four: "str_int 4 = ''4''"
    by (simp add: str_int_def str_nat.simps)
  have msg: "over_pool_message ''SMS.f09.X'' RUN_PHASE 4
      = ''Test SMS.f09.X phase RUN requested more (4) than entire pool (self._proc_pool)''"
       "over_pool_message ''SMS.f09.X'' MODEL_BUILD_PHASE 4
      = ''Test SMS.f09.X phase MODEL_BUILD requested more (4) than entire pool (self._proc_pool)''"
    by (simp_all add: over_pool_message_def four)
  have pa: "phases ?a = PHASES" and pb: "phases ?b = PHASES"
    by (simp_all add: eval_phases two_tests_def)
  have da: "get_test_data ?a ''SMS.f09.X'' = Inr (MODEL_BUILD_PHASE, TEST_PASS_STATUS)"
    by (simp add: eval_two_tests)
  have db: "get_test_data ?b ''SMS.f09.X'' = Inr (SHAREDLIB_BUILD_PHASE, TEST_PASS_STATUS)"
    by (simp add: eval_two_tests)
  have ia: "list_index (phases ?a) MODEL_BUILD_PHASE = Some 5"
    by (simp add: pa PHASES_def)
  have ib: "list_index (phases ?b) SHAREDLIB_BUILD_PHASE = Some 4"
    by (simp add: pb PHASES_def)
  have la: "5 + 1 < length (phases ?a)" and lb: "4 + 1 < length (phases ?b)"
    by (simp_all add: pa pb PHASES_def)
  have na: "phases ?a ! (5 + 1) = RUN_PHASE" and nb: "phases ?b ! (4 + 1) = MODEL_BUILD_PHASE"
    by (simp_all add: pa pb PHASES_def)
  have ca: "get_procs_needed quiet_externals ?a ''SMS.f09.X'' (phases ?a ! (5 + 1)) (Some []) False
              = Inr (Some 4)"
    unfolding na by (simp add: get_procs_needed_def eval_two_tests quiet_externals_def)
  have cb: "get_procs_needed quiet_externals ?b ''SMS.f09.X'' (phases ?b ! (4 + 1)) (Some []) False
              = Inr (Some 4)"
    unfolding nb by (simp add: get_procs_needed_def eval_two_tests quiet_externals_def)
  have pool: "proc_pool ?a < 4" "proc_pool ?b < 4"
    by (simp_all add: two_tests_def)
  note tha = over_pool_launch [OF da _ ia la ca pool(1), THEN conjunct2, rule_format]
  note thb = over_pool_launch [OF db _ ib lb cb pool(2), THEN conjunct1, rule_format]
  obtain s' where s':
      "producer_indv_test_launch quiet_externals ?a ''SMS.f09.X'' [] = Inr (True, s', [])"
      "get_test_data s' ''SMS.f09.X'' = Inr (RUN_PHASE, TEST_FAIL_STATUS)"
      "\<forall>u. u \<noteq> ''SMS.f09.X'' \<longrightarrow> get_test_data s' u = get_test_data ?a u"
      "status_files s' =
         (status_files ?a)
           (''SMS.f09.X'' := ts_set_status quiet_externals
                   (ts_set_status quiet_externals (status_files ?a ''SMS.f09.X'') SUBMIT_PHASE
                      TEST_PASS_STATUS NO_COMMENT)
                   RUN_PHASE TEST_FAIL_STATUS NO_COMMENT)"
      "test_logs s' = (test_logs ?a)(''SMS.f09.X'' := test_logs ?a ''SMS.f09.X''
                          @ [over_pool_message ''SMS.f09.X'' RUN_PHASE 4])"
      "procs_avail s' = procs_avail ?a"
    using tha na by auto
  have other: "get_test_data s' ''ERS.f09.X'' = Inr (TEST_START, TEST_PASS_STATUS)"
    using s'(3) by (simp add: eval_two_tests)
  have first: "map_sum id
     (\<lambda>(launched, s', tif).
         (launched, get_test_data s' ''SMS.f09.X'', get_test_data s' ''ERS.f09.X'',
          status_files s' ''SMS.f09.X'', test_logs s' ''SMS.f09.X'', procs_avail s', tif))
     (producer_indv_test_launch quiet_externals ?a ''SMS.f09.X'' [])
     = Inr (True, Inr (RUN_PHASE, TEST_FAIL_STATUS), Inr (TEST_START, TEST_PASS_STATUS),
            [(SUBMIT_PHASE, TEST_PASS_STATUS, NO_COMMENT), (RUN_PHASE, TEST_FAIL_STATUS, NO_COMMENT)],
            [''Test SMS.f09.X phase RUN requested more (4) than entire pool (self._proc_pool)''],
            2, [])"
    unfolding s'(1)
    by (simp add: s' other msg two_tests_def quiet_externals_def store_write_def)
  have second: "producer_indv_test_launch quiet_externals ?b ''SMS.f09.X'' []
     = Inl (CIMEError
         ''Test SMS.f09.X phase MODEL_BUILD requested more (4) than entire pool (self._proc_pool)'')"
    using thb nb msg by simp
  show ?thesis using first second by blast
qed

subsection \<open>Followers wait for their leader\<close>

text \<open>
  Where the paths of a follower do what the gating rule says. Let \<open>f\<close> be a follower of
  the leader \<open>l\<close>, \<open>p\<close> one of \<open>XML\<close>, \<open>SHAREDLIB_BUILD\<close>, \<open>MODEL_BUILD\<close>, and \<open>st\<close> the
  leader's status at \<open>p\<close>.
  \<^item> If \<open>st\<close> is \<open>PEND\<close> the cost query answers \<open>None\<close>, and a launch of \<open>f\<close> whose next
    phase is \<open>p\<close> returns \<open>False\<close> and changes nothing.
  \<^item> Otherwise the cost query answers 1.
  \<^item> The follower's \<open>SHAREDLIB_BUILD\<close> runs no command: it returns success if \<open>st\<close> is
    \<open>PASS\<close>, and else fails with the message "Cannot use build for test l because it
    failed". So does its \<open>MODEL_BUILD\<close>, which on success marks the build of the
    follower's case complete (\<open>post_build\<close>).
  \<^item> The follower's \<open>XML\<close>, once env\_test is prepared and when the leader has recorded
    the executable root of the group, sets \<open>EXEROOT\<close> of its case to that root and
    succeeds (after the clamp of \<open>GMAKE_J\<close>).
\<close>

lemma follower_paths:
  assumes "get_build_group s f = Inr (False, l, g)"
      and "p \<in> set [XML_PHASE, SHAREDLIB_BUILD_PHASE, MODEL_BUILD_PHASE]"
      and "get_test_status s l (Some p) = Inr st"
  shows "(st = TEST_PEND_STATUS \<longrightarrow>
            get_procs_needed ext s f p tif nb = Inr None
            \<and> (\<forall>fp fs i tif'.
                  get_test_data s f = Inr (fp, fs) \<and> fs \<noteq> TEST_PEND_STATUS
                  \<and> list_index (phases s) fp = Some i \<and> i + 1 < length (phases s)
                  \<and> phases s ! (i + 1) = p
                  \<longrightarrow> producer_indv_test_launch ext s f tif' = Inr (False, s, tif')))
       \<and> (st \<noteq> TEST_PEND_STATUS \<longrightarrow> get_procs_needed ext s f p tif nb = Inr (Some 1))
       \<and> (p = SHAREDLIB_BUILD_PHASE \<longrightarrow>
            sharedlib_build_phase ext f s =
              Some (if st = TEST_PASS_STATUS then (Returned True [], s)
                    else (Returned False
                            (''Cannot use build for test '' @ l @ '' because it failed''), s)))
       \<and> (p = MODEL_BUILD_PHASE \<longrightarrow>
            model_build_phase ext f s =
              Some (if st = TEST_PASS_STATUS
                    then (Returned True [], s\<lparr>post_built := post_built s @ [f]\<rparr>)
                    else (Returned False
                            (''Cannot use build for test '' @ l @ '' because it failed''), s)))
       \<and> (p = XML_PHASE \<and> xml_env_test ext f = None \<and> build_group_exeroots s g = Some x \<longrightarrow>
            xml_phase ext f s =
              Some (Returned True [],
                if proc_pool s < model_build_cost s
                then (case_set_value (case_set_value s f ''EXEROOT'' (StrVal x)) f
                        ''GMAKE_J'' (IntVal (proc_pool s)))
                       \<lparr>model_build_cost := proc_pool s\<rparr>
                else case_set_value s f ''EXEROOT'' (StrVal x)))"
proof (intro conjI impI)
  assume pend: "st = TEST_PEND_STATUS"
  have q: "get_procs_needed ext s f p (Some tif') False = Inr None" for tif'
    using assms pend by (auto simp: get_procs_needed_def)
  show "get_procs_needed ext s f p tif nb = Inr None"
    using assms pend by (auto simp: get_procs_needed_def)
  show "\<forall>fp fs i tif'.
          get_test_data s f = Inr (fp, fs) \<and> fs \<noteq> TEST_PEND_STATUS
          \<and> list_index (phases s) fp = Some i \<and> i + 1 < length (phases s)
          \<and> phases s ! (i + 1) = p
          \<longrightarrow> producer_indv_test_launch ext s f tif' = Inr (False, s, tif')"
    using q by (auto simp: producer_indv_test_launch_def)
next
  assume "st \<noteq> TEST_PEND_STATUS"
  then show "get_procs_needed ext s f p tif nb = Inr (Some 1)"
    using assms by (auto simp: get_procs_needed_def)
next
  assume "p = SHAREDLIB_BUILD_PHASE"
  then show "sharedlib_build_phase ext f s =
              Some (if st = TEST_PASS_STATUS then (Returned True [], s)
                    else (Returned False
                            (''Cannot use build for test '' @ l @ '' because it failed''), s))"
    using assms by (simp add: sharedlib_build_phase_def cannot_use_build_def)
next
  assume "p = MODEL_BUILD_PHASE"
  then show "model_build_phase ext f s =
              Some (if st = TEST_PASS_STATUS
                    then (Returned True [], s\<lparr>post_built := post_built s @ [f]\<rparr>)
                    else (Returned False
                            (''Cannot use build for test '' @ l @ '' because it failed''), s))"
    using assms by (simp add: model_build_phase_def cannot_use_build_def)
next
  assume "p = XML_PHASE \<and> xml_env_test ext f = None \<and> build_group_exeroots s g = Some x"
  then show "xml_phase ext f s =
              Some (Returned True [],
                if proc_pool s < model_build_cost s
                then (case_set_value (case_set_value s f ''EXEROOT'' (StrVal x)) f
                        ''GMAKE_J'' (IntVal (proc_pool s)))
                       \<lparr>model_build_cost := proc_pool s\<rparr>
                else case_set_value s f ''EXEROOT'' (StrVal x))"
    using assms
    by (simp add: xml_phase_def case_set_value_def)
qed

lemmas eval_consumer = run_catch_exceptions_def consumer_status_def update_test_status_def
  work_remains_def consumer_writes_status_file_def update_test_status_file_def
  set_test_data_def log_output_def

text \<open>
  Four followers. The leader is still creating its case: \<open>XML\<close> of the follower is not
  launched. The leader passed \<open>SHAREDLIB_BUILD\<close>: the follower's costs 1 and succeeds
  without a command. The leader failed \<open>MODEL_BUILD\<close>: the follower's costs 1 and fails
  with the message. The leader passed \<open>XML\<close> and recorded its executable root: the
  follower's \<open>XML\<close> takes it over.
\<close>

lemma follower_paths_examples:
  "get_procs_needed quiet_externals
       (two_tests (CREATE_NEWCASE_PHASE, TEST_PEND_STATUS) (CREATE_NEWCASE_PHASE, TEST_PASS_STATUS))
       ''ERS.f09.X'' XML_PHASE (Some []) False = Inr None
   \<and> producer_indv_test_launch quiet_externals
       (two_tests (CREATE_NEWCASE_PHASE, TEST_PEND_STATUS) (CREATE_NEWCASE_PHASE, TEST_PASS_STATUS))
       ''ERS.f09.X'' []
     = Inr (False,
            two_tests (CREATE_NEWCASE_PHASE, TEST_PEND_STATUS) (CREATE_NEWCASE_PHASE, TEST_PASS_STATUS),
            [])
   \<and> get_procs_needed quiet_externals
       (two_tests (SHAREDLIB_BUILD_PHASE, TEST_PASS_STATUS) (SETUP_PHASE, TEST_PASS_STATUS))
       ''ERS.f09.X'' SHAREDLIB_BUILD_PHASE (Some []) False = Inr (Some 1)
   \<and> sharedlib_build_phase quiet_externals ''ERS.f09.X''
       (two_tests (SHAREDLIB_BUILD_PHASE, TEST_PASS_STATUS) (SHAREDLIB_BUILD_PHASE, TEST_PEND_STATUS))
     = Some (Returned True [],
         two_tests (SHAREDLIB_BUILD_PHASE, TEST_PASS_STATUS) (SHAREDLIB_BUILD_PHASE, TEST_PEND_STATUS))
   \<and> get_procs_needed quiet_externals
       (two_tests (MODEL_BUILD_PHASE, TEST_FAIL_STATUS) (SHAREDLIB_BUILD_PHASE, TEST_PASS_STATUS))
       ''ERS.f09.X'' MODEL_BUILD_PHASE (Some []) False = Inr (Some 1)
   \<and> model_build_phase quiet_externals ''ERS.f09.X''
       (two_tests (MODEL_BUILD_PHASE, TEST_FAIL_STATUS) (MODEL_BUILD_PHASE, TEST_PEND_STATUS))
     = Some (Returned False ''Cannot use build for test SMS.f09.X because it failed'',
         two_tests (MODEL_BUILD_PHASE, TEST_FAIL_STATUS) (MODEL_BUILD_PHASE, TEST_PEND_STATUS))
   \<and> map_option (\<lambda>(r, s'). (r, case_values s' ''ERS.f09.X''))
       (xml_phase quiet_externals ''ERS.f09.X''
          ((two_tests (SETUP_PHASE, TEST_PASS_STATUS) (XML_PHASE, TEST_PEND_STATUS))
             \<lparr>build_group_exeroots := (\<lambda>g. Some ''/scratch/SMS.f09.X/bld'')\<rparr>))
     = Some (Returned True [], [(''EXEROOT'', StrVal ''/scratch/SMS.f09.X/bld'')])"
proof -
  let ?g = "[''SMS.f09.X'', ''ERS.f09.X'']"
  let ?a = "two_tests (CREATE_NEWCASE_PHASE, TEST_PEND_STATUS) (CREATE_NEWCASE_PHASE, TEST_PASS_STATUS)"
  let ?b = "two_tests (SHAREDLIB_BUILD_PHASE, TEST_PASS_STATUS) (SETUP_PHASE, TEST_PASS_STATUS)"
  let ?b' = "two_tests (SHAREDLIB_BUILD_PHASE, TEST_PASS_STATUS) (SHAREDLIB_BUILD_PHASE, TEST_PEND_STATUS)"
  let ?c = "two_tests (MODEL_BUILD_PHASE, TEST_FAIL_STATUS) (SHAREDLIB_BUILD_PHASE, TEST_PASS_STATUS)"
  let ?c' = "two_tests (MODEL_BUILD_PHASE, TEST_FAIL_STATUS) (MODEL_BUILD_PHASE, TEST_PEND_STATUS)"
  let ?d = "(two_tests (SETUP_PHASE, TEST_PASS_STATUS) (XML_PHASE, TEST_PEND_STATUS))
              \<lparr>build_group_exeroots := (\<lambda>g. Some ''/scratch/SMS.f09.X/bld'')\<rparr>"
  note th = follower_paths
  have grp: "get_build_group (two_tests x y) ''ERS.f09.X'' = Inr (False, ''SMS.f09.X'', ?g)" for x y
    by (simp add: eval_two_tests)
  have grpd: "get_build_group ?d ''ERS.f09.X'' = Inr (False, ''SMS.f09.X'', ?g)"
    by (simp add: eval_two_tests)
  have xml: "XML_PHASE \<in> set [XML_PHASE, SHAREDLIB_BUILD_PHASE, MODEL_BUILD_PHASE]"
    and shl: "SHAREDLIB_BUILD_PHASE \<in> set [XML_PHASE, SHAREDLIB_BUILD_PHASE, MODEL_BUILD_PHASE]"
    and mdl: "MODEL_BUILD_PHASE \<in> set [XML_PHASE, SHAREDLIB_BUILD_PHASE, MODEL_BUILD_PHASE]"
    by simp_all
  have sa: "get_test_status ?a ''SMS.f09.X'' (Some XML_PHASE) = Inr TEST_PEND_STATUS"
    by (simp add: get_test_status_def eval_two_tests eval_phases)
  have sb: "get_test_status ?b ''SMS.f09.X'' (Some SHAREDLIB_BUILD_PHASE) = Inr TEST_PASS_STATUS"
    and sb': "get_test_status ?b' ''SMS.f09.X'' (Some SHAREDLIB_BUILD_PHASE) = Inr TEST_PASS_STATUS"
    and sc: "get_test_status ?c ''SMS.f09.X'' (Some MODEL_BUILD_PHASE) = Inr TEST_FAIL_STATUS"
    and sc': "get_test_status ?c' ''SMS.f09.X'' (Some MODEL_BUILD_PHASE) = Inr TEST_FAIL_STATUS"
    and sd: "get_test_status ?d ''SMS.f09.X'' (Some XML_PHASE) = Inr TEST_PASS_STATUS"
    by (simp_all add: get_test_status_def eval_two_tests eval_phases)
  have fa: "get_test_data ?a ''ERS.f09.X'' = Inr (CREATE_NEWCASE_PHASE, TEST_PASS_STATUS)
            \<and> TEST_PASS_STATUS \<noteq> TEST_PEND_STATUS
            \<and> list_index (phases ?a) CREATE_NEWCASE_PHASE = Some 1
            \<and> 1 + 1 < length (phases ?a) \<and> phases ?a ! (1 + 1) = XML_PHASE"
    by (simp add: eval_two_tests eval_phases)
  have r1: "get_procs_needed quiet_externals ?a ''ERS.f09.X'' XML_PHASE (Some []) False = Inr None"
    using th [OF grp xml sa, THEN conjunct1, rule_format, THEN conjunct1] by simp
  have r2: "producer_indv_test_launch quiet_externals ?a ''ERS.f09.X'' [] = Inr (False, ?a, [])"
    using th [OF grp xml sa, THEN conjunct1, rule_format, THEN conjunct2, rule_format, OF _ fa]
    by simp
  have r3: "get_procs_needed quiet_externals ?b ''ERS.f09.X'' SHAREDLIB_BUILD_PHASE (Some []) False
              = Inr (Some 1)"
    using th [OF grp shl sb, THEN conjunct2, THEN conjunct1, rule_format] by simp
  have r4: "sharedlib_build_phase quiet_externals ''ERS.f09.X'' ?b' = Some (Returned True [], ?b')"
    using th [OF grp shl sb', THEN conjunct2, THEN conjunct2, THEN conjunct1, rule_format]
    by simp
  have r5: "get_procs_needed quiet_externals ?c ''ERS.f09.X'' MODEL_BUILD_PHASE (Some []) False
              = Inr (Some 1)"
    using th [OF grp mdl sc, THEN conjunct2, THEN conjunct1, rule_format] by simp
  have r6: "model_build_phase quiet_externals ''ERS.f09.X'' ?c'
              = Some (Returned False ''Cannot use build for test SMS.f09.X because it failed'', ?c')"
    using th [OF grp mdl sc', THEN conjunct2, THEN conjunct2, THEN conjunct2, THEN conjunct1,
              rule_format]
    by simp
  have r7: "map_option (\<lambda>(r, s'). (r, case_values s' ''ERS.f09.X''))
              (xml_phase quiet_externals ''ERS.f09.X'' ?d)
            = Some (Returned True [], [(''EXEROOT'', StrVal ''/scratch/SMS.f09.X/bld'')])"
    using th [where ext = quiet_externals and x = "''/scratch/SMS.f09.X/bld''",
              OF grpd xml sd, THEN conjunct2, THEN conjunct2, THEN conjunct2, THEN conjunct2,
              rule_format]
    by (simp add: quiet_externals_def two_tests_def case_set_value_def)
  show ?thesis using r1 r2 r3 r4 r5 r6 r7 by blast
qed

text \<open>
  Claim C1. The claim has the follower's phase fail with "Cannot use build for test ...
  because it failed" when the leader failed that phase; the follower's \<open>SHAREDLIB_BUILD\<close>
  and \<open>MODEL_BUILD\<close> look at the leader's status and do so. Its \<open>XML\<close> does not look. Here
  the leader's worker fails \<open>XML\<close> (env\_test cannot be prepared). The leader's status at
  \<open>XML\<close> is then \<open>FAIL\<close>, the group has no executable root, and the follower's \<open>XML\<close>
  costs 1; it runs into the check "Should already have exeroot", and the error text the
  worker gets is the report of that exception, not the message of the claim.
\<close>

theorem follower_xml_after_failed_leader:
  "consumer leader_xml_fails_externals ''SMS.f09.X'' XML_PHASE
       (xml_phase leader_xml_fails_externals)
       (two_tests (XML_PHASE, TEST_PEND_STATUS) (CREATE_NEWCASE_PHASE, TEST_PASS_STATUS))
     = Some (None, leader_xml_failed)
   \<and> get_build_group leader_xml_failed ''ERS.f09.X''
     = Inr (False, ''SMS.f09.X'', [''SMS.f09.X'', ''ERS.f09.X''])
   \<and> get_test_status leader_xml_failed ''SMS.f09.X'' (Some XML_PHASE) = Inr TEST_FAIL_STATUS
   \<and> get_procs_needed leader_xml_fails_externals leader_xml_failed ''ERS.f09.X'' XML_PHASE
        (Some []) False = Inr (Some 1)
   \<and> xml_phase leader_xml_fails_externals ''ERS.f09.X'' leader_xml_failed
     = Some (Raised (CIMEError ''Should already have exeroot''), leader_xml_failed)
   \<and> map_option fst
        (run_catch_exceptions leader_xml_fails_externals ''ERS.f09.X'' XML_PHASE
           (xml_phase leader_xml_fails_externals) leader_xml_failed)
     = Some (False,
         exception_report leader_xml_fails_externals ''ERS.f09.X'' XML_PHASE
           (CIMEError ''Should already have exeroot''))
   \<and> exception_report leader_xml_fails_externals ''ERS.f09.X'' XML_PHASE
        (CIMEError ''Should already have exeroot'')
     \<noteq> ''Cannot use build for test SMS.f09.X because it failed''"
proof -
  have step: "consumer leader_xml_fails_externals ''SMS.f09.X'' XML_PHASE
       (xml_phase leader_xml_fails_externals)
       (two_tests (XML_PHASE, TEST_PEND_STATUS) (CREATE_NEWCASE_PHASE, TEST_PASS_STATUS))
     = Some (None, leader_xml_failed)"
    by (subst consumer.simps)
       (simp add: eval_consumer xml_phase_def leader_xml_fails_externals_def quiet_externals_def
          eval_two_tests eval_phases store_write_def leader_xml_failed_def)
  have x: "xml_phase leader_xml_fails_externals ''ERS.f09.X'' leader_xml_failed
     = Some (Raised (CIMEError ''Should already have exeroot''), leader_xml_failed)"
    by (simp add: xml_phase_def leader_xml_fails_externals_def quiet_externals_def
          leader_xml_failed_def eval_two_tests)
  have rest: "get_build_group leader_xml_failed ''ERS.f09.X''
     = Inr (False, ''SMS.f09.X'', [''SMS.f09.X'', ''ERS.f09.X''])
   \<and> get_test_status leader_xml_failed ''SMS.f09.X'' (Some XML_PHASE) = Inr TEST_FAIL_STATUS
   \<and> get_procs_needed leader_xml_fails_externals leader_xml_failed ''ERS.f09.X'' XML_PHASE
        (Some []) False = Inr (Some 1)"
    by (simp add: get_procs_needed_def get_test_status_def leader_xml_failed_def eval_two_tests)
  have neq: "exception_report leader_xml_fails_externals ''ERS.f09.X'' XML_PHASE
        (CIMEError ''Should already have exeroot'')
     \<noteq> ''Cannot use build for test SMS.f09.X because it failed''"
    by (simp add: exception_report_def)
  show ?thesis
    using step x rest neq by (simp add: run_catch_exceptions_def)
qed

subsection \<open>One step of a worker\<close>

lemma get_build_group_set_test_data [simp]:
  "get_build_group (set_test_data s t d) u = get_build_group s u"
  by (simp add: get_build_group_def set_test_data_def)

lemma get_build_group_update_test_status_file [simp]:
  "get_build_group (update_test_status_file ext s t ph st) u = get_build_group s u"
  by (simp add: get_build_group_def update_test_status_file_def)

lemma flags_set_test_data [simp]:
  "no_run (set_test_data s t d) = no_run s"
  "no_batch (set_test_data s t d) = no_batch s"
  "no_build (set_test_data s t d) = no_build s"
  "status_files (set_test_data s t d) = status_files s"
  by (simp_all add: set_test_data_def)

lemma flags_update_test_status_file [simp]:
  "no_run (update_test_status_file ext s t ph st) = no_run s"
  "no_batch (update_test_status_file ext s t ph st) = no_batch s"
  "no_build (update_test_status_file ext s t ph st) = no_build s"
  by (simp_all add: update_test_status_file_def)

lemma work_remains_eq:
  assumes "get_test_data s t = Inr (ph, st)"
  shows "work_remains s t =
           Inr ((st = TEST_PASS_STATUS \<or> st = TEST_PEND_STATUS) \<and> ph \<noteq> last (phases s))"
  using assms by (simp add: work_remains_def)

text \<open>
  The worker of a test that the producer left at \<open>(ph, PEND)\<close>, once its phase method has
  come back: no lookup fails, and what remains of \<open>_consumer\<close> is its bookkeeping
  (the states \<open>s2\<close> to \<open>s5\<close>) followed by the return or by the chained \<open>RUN\<close>.
\<close>

lemma consumer_after_phase:
  assumes run: "run_catch_exceptions ext t ph m s = Some ((success, errors), s1)"
      and d: "get_test_data s1 t = Inr (ph, TEST_PEND_STATUS)"
      and inph: "ph \<in> set (phases s1)"
      and grp: "get_build_group s1 t = Inr (is_first_test, l, g)"
      and st: "st = consumer_status s1 ph success"
      and s2: "s2 = (if st \<noteq> TEST_PEND_STATUS then set_test_data s1 t (ph, st) else s1)"
      and s3: "s3 = (if (st = TEST_PASS_STATUS \<or> st = TEST_PEND_STATUS) \<and> ph \<noteq> last (phases s1)
                     then s2 else s2\<lparr>completed_tests := completed_tests s2 + 1\<rparr>)"
      and s4: "s4 = (if consumer_writes_status_file is_first_test ph
                     then update_test_status_file ext s3 t ph st else s3)"
      and s5: "s5 = (if ph = XML_PHASE
                     then s4\<lparr>readme_case := (readme_case s4)
                            (t := readme_case s4 t
                               @ [''Case Created using: '' @ join '' '' (sys_argv ext)])\<rparr>
                     else s4)"
  shows "consumer ext t ph m s =
           (if success \<and> \<not> no_run s1 \<and> \<not> no_batch s1 \<and> ph = MODEL_BUILD_PHASE
            then (case update_test_status s5 t RUN_PHASE TEST_PEND_STATUS of
                    Inl e \<Rightarrow> Some (Some e, s5)
                  | Inr s6 \<Rightarrow> consumer ext t RUN_PHASE (run_phase ext) s6)
            else Some (None, s5))"
proof -
  have upd: "(if st \<noteq> TEST_PEND_STATUS then update_test_status s1 t ph st else Inr s1) = Inr s2"
    using update_test_status_done [OF d inph] s2 by simp
  have d2: "get_test_data s2 t = Inr (ph, st)"
    using d s2 by simp
  have wr: "work_remains s2 t =
              Inr ((st = TEST_PASS_STATUS \<or> st = TEST_PEND_STATUS) \<and> ph \<noteq> last (phases s1))"
    using work_remains_eq [OF d2] s2 by simp
  have g2: "get_build_group s2 t = Inr (is_first_test, l, g)"
    using grp s2 by simp
  have flags: "no_run s5 = no_run s1" "no_batch s5 = no_batch s1"
    using s2 s3 s4 s5 by (simp_all add: update_test_status_file_def set_test_data_def)
  have g5: "get_build_group s5 t = Inr (is_first_test, l, g)"
    using grp s2 s3 s4 s5
    by (simp add: get_build_group_def update_test_status_file_def set_test_data_def)
  have procs: "get_procs_needed ext s5 t RUN_PHASE None True = Inr (Some (total_pes ext t))"
    using g5 by (simp add: get_procs_needed_def)
  show ?thesis
    apply (subst consumer.simps)
    apply (simp only: run option.case prod.case)
    apply (simp only: st [symmetric] upd sum.case wr g2 prod.case Let_def)
    apply (simp only: s3 [symmetric] if_not_P if_P cong: if_cong)
    using s3 s4 s5 flags procs
    apply (auto simp: Let_def)
    done
qed

lemma shell_cmd_for_phase_frame:
  assumes r: "shell_cmd_for_phase ext t cmd ph s = Some y"
  shows "tests (snd y) = tests s \<and> no_setup (snd y) = no_setup s
       \<and> no_build (snd y) = no_build s \<and> no_run (snd y) = no_run s
       \<and> no_batch (snd y) = no_batch s \<and> build_groups (snd y) = build_groups s
       \<and> status_files (snd y) = status_files s"
proof (rule shell_cmd_for_phase.raw_induct
         [where P = "\<lambda>ext t cmd ph s y.
                       tests (snd y) = tests s \<and> no_setup (snd y) = no_setup s
                       \<and> no_build (snd y) = no_build s \<and> no_run (snd y) = no_run s
                       \<and> no_batch (snd y) = no_batch s \<and> build_groups (snd y) = build_groups s
                       \<and> status_files (snd y) = status_files s",
          OF _ r], goal_cases)
  case (1 f ext t cmd ph s y)
  obtain rc out errput where rr: "run_cmd ext (cmd_calls s) cmd = (rc, out, errput)"
    by (cases "run_cmd ext (cmd_calls s) cmd") auto
  show ?case
  proof (cases "rc \<noteq> 0 \<and> contains out ''bad interpreter''")
    case True
    let ?s1 = "(log_output (s\<lparr>cmd_calls := Suc (cmd_calls s)\<rparr>) t
                 (phase_log_message (phase_name ph) ''FAILED'' t cmd out errput))
               \<lparr>slept := slept s + 1\<rparr>"
    have "f ext t cmd ph ?s1 = Some y"
      using True 1(2) rr by simp
    from 1(1) [OF this] show ?thesis
      by (simp add: log_output_def)
  next
    case False
    then show ?thesis
      using 1(2) rr by (auto simp: log_output_def split: if_splits)
  qed
qed

lemma run_phase_frame:
  assumes "run_phase ext t s = Some (r, s')"
  shows "(\<exists>ok e. r = Returned ok e)
       \<and> tests s' = tests s \<and> no_setup s' = no_setup s
       \<and> no_build s' = no_build s \<and> no_run s' = no_run s
       \<and> no_batch s' = no_batch s \<and> build_groups s' = build_groups s"
proof (cases "case case_opts ext t of None \<Rightarrow> False | Some opts \<Rightarrow> ''B'' \<in> set opts")
  case True
  then show ?thesis
    using assms
    by (auto simp: run_phase_def update_test_status_file_def log_output_def)
next
  case False
  then obtain y where y: "shell_cmd_for_phase ext t (submit_cmd s) RUN_PHASE s = Some y"
      and r: "r = Returned (fst (fst y)) (snd (fst y))" and s': "s' = snd y"
    using assms by (auto simp: run_phase_def split: option.splits)
  show ?thesis
    using shell_cmd_for_phase_frame [OF y] r s' by simp
qed

lemma model_build_then_run:
  assumes "\<not> no_build s" and "\<not> no_run s"
  shows "\<exists>i. list_index (phases s) MODEL_BUILD_PHASE = Some i
            \<and> list_index (phases s) RUN_PHASE = Some (Suc i)"
    and "last (phases s) = RUN_PHASE"
  using assms by (auto simp: eval_phases)

subsection \<open>From the model build straight into the run\<close>

text \<open>
  Claim C7. Let the phase method of \<open>MODEL_BUILD\<close> come back with success in the worker
  of a test that stands at \<open>(MODEL_BUILD, PEND)\<close>, with the build and run phases active
  and batch enabled. Then the rest of this invocation of the worker is an invocation of
  the worker for \<open>RUN\<close> with the method \<open>_run_phase\<close>, on the state \<open>cs\<close> in which the
  test stands at \<open>(RUN, PEND)\<close>: the model build has been recorded as passed (for a
  follower also in its status file) and nothing else has happened in between. If
  \<open>_run_phase\<close> does not return, neither does the worker; if it returns, the worker
  returns with the test at \<open>(RUN, PEND)\<close> after a successful submission and at
  \<open>(RUN, FAIL)\<close> after a failed one.
\<close>

theorem model_build_chains_into_run:
  assumes "run_catch_exceptions ext t MODEL_BUILD_PHASE m s = Some ((True, errors), s1)"
      and "get_test_data s1 t = Inr (MODEL_BUILD_PHASE, TEST_PEND_STATUS)"
      and "\<not> no_build s1" and "\<not> no_run s1" and "\<not> no_batch s1"
      and "get_build_group s1 t = Inr (is_first_test, l, g)"
      and "cs = set_test_data
                  (if is_first_test
                   then set_test_data s1 t (MODEL_BUILD_PHASE, TEST_PASS_STATUS)
                   else update_test_status_file ext
                          (set_test_data s1 t (MODEL_BUILD_PHASE, TEST_PASS_STATUS))
                          t MODEL_BUILD_PHASE TEST_PASS_STATUS)
                  t (RUN_PHASE, TEST_PEND_STATUS)"
  shows "consumer ext t MODEL_BUILD_PHASE m s = consumer ext t RUN_PHASE (run_phase ext) cs
       \<and> get_test_data cs t = Inr (RUN_PHASE, TEST_PEND_STATUS)
       \<and> (run_phase ext t cs = None \<longrightarrow> consumer ext t MODEL_BUILD_PHASE m s = None)
       \<and> (\<forall>r s7. run_phase ext t cs = Some (r, s7) \<longrightarrow>
            (\<exists>ok e s'. r = Returned ok e
               \<and> consumer ext t MODEL_BUILD_PHASE m s = Some (None, s')
               \<and> get_test_data s' t
                   = Inr (RUN_PHASE, if ok then TEST_PEND_STATUS else TEST_FAIL_STATUS)))"
proof -
  let ?s2 = "set_test_data s1 t (MODEL_BUILD_PHASE, TEST_PASS_STATUS)"
  let ?s4 = "if is_first_test then ?s2
             else update_test_status_file ext ?s2 t MODEL_BUILD_PHASE TEST_PASS_STATUS"
  obtain i where i: "list_index (phases s1) MODEL_BUILD_PHASE = Some i"
                    "list_index (phases s1) RUN_PHASE = Some (Suc i)"
    using model_build_then_run(1) [OF assms(3,4)] by blast
  have lastp: "last (phases s1) = RUN_PHASE"
    using model_build_then_run(2) [OF assms(3,4)] .
  have inph: "MODEL_BUILD_PHASE \<in> set (phases s1)"
    using i(1) by (auto simp: list_index_in_set)
  have st: "consumer_status s1 MODEL_BUILD_PHASE True = TEST_PASS_STATUS"
    by (simp add: consumer_status_def)
  have d4: "get_test_data ?s4 t = Inr (MODEL_BUILD_PHASE, TEST_PASS_STATUS)"
    by simp
  have p4: "phases ?s4 = phases s1"
    by simp
  have upd: "update_test_status ?s4 t RUN_PHASE TEST_PEND_STATUS = Inr cs"
    using update_test_status_next [OF d4, of i RUN_PHASE] i p4 assms(7) by simp
  have after: "consumer ext t MODEL_BUILD_PHASE m s =
           (if True \<and> \<not> no_run s1 \<and> \<not> no_batch s1 \<and> MODEL_BUILD_PHASE = MODEL_BUILD_PHASE
            then (case update_test_status ?s4 t RUN_PHASE TEST_PEND_STATUS of
                    Inl e \<Rightarrow> Some (Some e, ?s4)
                  | Inr s6 \<Rightarrow> consumer ext t RUN_PHASE (run_phase ext) s6)
            else Some (None, ?s4))"
    by (rule consumer_after_phase
          [where st = TEST_PASS_STATUS and ?s2.0 = ?s2 and ?s3.0 = ?s2 and ?s4.0 = ?s4,
           OF assms(1,2) inph assms(6)])
       (simp_all add: st lastp consumer_writes_status_file_def)
  have step: "consumer ext t MODEL_BUILD_PHASE m s = consumer ext t RUN_PHASE (run_phase ext) cs"
    using after assms(4,5) upd by simp
  have dcs: "get_test_data cs t = Inr (RUN_PHASE, TEST_PEND_STATUS)"
    using assms(7) by simp
  have none: "run_phase ext t cs = None \<longrightarrow> consumer ext t MODEL_BUILD_PHASE m s = None"
    unfolding step
    by (subst consumer.simps) (simp add: run_catch_exceptions_def)
  have some: "\<exists>ok e s'. r = Returned ok e
               \<and> consumer ext t MODEL_BUILD_PHASE m s = Some (None, s')
               \<and> get_test_data s' t
                   = Inr (RUN_PHASE, if ok then TEST_PEND_STATUS else TEST_FAIL_STATUS)"
    if r7: "run_phase ext t cs = Some (r, s7)" for r s7
  proof -
    from run_phase_frame [OF r7] obtain ok e where
      r: "r = Returned ok e" and fr: "tests s7 = tests cs" "no_setup s7 = no_setup cs"
        "no_build s7 = no_build cs" "no_run s7 = no_run cs" "no_batch s7 = no_batch cs"
        "build_groups s7 = build_groups cs"
      by blast
    have run7: "run_catch_exceptions ext t RUN_PHASE (run_phase ext) cs = Some ((ok, e), s7)"
      using r7 r by (simp add: run_catch_exceptions_def)
    have d7: "get_test_data s7 t = Inr (RUN_PHASE, TEST_PEND_STATUS)"
      using dcs fr(1) by (simp add: get_test_data_def)
    have p7: "phases s7 = phases s1"
      using fr assms(7) by (simp add: phases_def set_test_data_def update_test_status_file_def)
    have in7: "RUN_PHASE \<in> set (phases s7)"
      using i(2) p7 by (auto simp: list_index_in_set)
    have g7: "get_build_group s7 t = Inr (is_first_test, l, g)"
      using assms(6,7) fr(6)
      by (simp add: get_build_group_def set_test_data_def update_test_status_file_def)
    have nb7: "\<not> no_batch s7"
      using fr(5) assms(5,7) by (simp add: set_test_data_def update_test_status_file_def)
    have st7: "consumer_status s7 RUN_PHASE ok
                 = (if ok then TEST_PEND_STATUS else TEST_FAIL_STATUS)"
      using nb7 by (simp add: consumer_status_def)
    let ?st = "if ok then TEST_PEND_STATUS else TEST_FAIL_STATUS"
    let ?t2 = "if ok then s7 else set_test_data s7 t (RUN_PHASE, TEST_FAIL_STATUS)"
    let ?t3 = "if ok \<and> RUN_PHASE \<noteq> last (phases s7) then ?t2
               else ?t2\<lparr>completed_tests := completed_tests ?t2 + 1\<rparr>"
    have c7: "consumer ext t RUN_PHASE (run_phase ext) cs =
           (if ok \<and> \<not> no_run s7 \<and> \<not> no_batch s7 \<and> RUN_PHASE = MODEL_BUILD_PHASE
            then (case update_test_status ?t3 t RUN_PHASE TEST_PEND_STATUS of
                    Inl e \<Rightarrow> Some (Some e, ?t3)
                  | Inr s6 \<Rightarrow> consumer ext t RUN_PHASE (run_phase ext) s6)
            else Some (None, ?t3))"
      by (rule consumer_after_phase
            [where st = ?st and ?s2.0 = ?t2 and ?s3.0 = ?t3 and ?s4.0 = ?t3,
             OF run7 d7 in7 g7])
         (auto simp: st7 consumer_writes_status_file_def)
    have d3: "get_test_data ?t3 t = Inr (RUN_PHASE, ?st)"
      using d7 by (auto simp: get_test_data_def set_test_data_def update_conv')
    show ?thesis
      unfolding step c7 using r d3 by auto
  qed
  show ?thesis using step dcs none some by blast
qed

text \<open>
  A leader and a follower, each at \<open>(MODEL_BUILD, PEND)\<close> on a batch machine where every
  command succeeds: the worker that builds also submits, and returns with the test at
  \<open>(RUN, PEND)\<close>.
\<close>

theorem model_build_chains_into_run_witness:
  "map_option (\<lambda>(e, s'). (e, get_test_data s' ''SMS.f09.X''))
     (consumer quiet_externals ''SMS.f09.X'' MODEL_BUILD_PHASE (model_build_phase quiet_externals)
        (two_tests (MODEL_BUILD_PHASE, TEST_PEND_STATUS) (TEST_START, TEST_PASS_STATUS)))
     = Some (None, Inr (RUN_PHASE, TEST_PEND_STATUS))
   \<and> map_option (\<lambda>(e, s'). (e, get_test_data s' ''ERS.f09.X''))
     (consumer quiet_externals ''ERS.f09.X'' MODEL_BUILD_PHASE (model_build_phase quiet_externals)
        (two_tests (MODEL_BUILD_PHASE, TEST_PASS_STATUS) (MODEL_BUILD_PHASE, TEST_PEND_STATUS)))
     = Some (None, Inr (RUN_PHASE, TEST_PEND_STATUS))"
proof -
  let ?a = "two_tests (MODEL_BUILD_PHASE, TEST_PEND_STATUS) (TEST_START, TEST_PASS_STATUS)"
  let ?b = "two_tests (MODEL_BUILD_PHASE, TEST_PASS_STATUS) (MODEL_BUILD_PHASE, TEST_PEND_STATUS)"
  let ?g = "[''SMS.f09.X'', ''ERS.f09.X'']"
  note th = model_build_chains_into_run
  have one: "map_option (\<lambda>(e, s'). (e, get_test_data s' ''SMS.f09.X''))
     (consumer quiet_externals ''SMS.f09.X'' MODEL_BUILD_PHASE (model_build_phase quiet_externals) ?a)
     = Some (None, Inr (RUN_PHASE, TEST_PEND_STATUS))"
  proof -
    obtain s1 where
      run: "run_catch_exceptions quiet_externals ''SMS.f09.X'' MODEL_BUILD_PHASE
              (model_build_phase quiet_externals) ?a = Some ((True, []), s1)"
      and s1: "s1 = log_output (?a\<lparr>cmd_calls := Suc 0\<rparr>) ''SMS.f09.X''
                      (phase_log_message ''MODEL_BUILD'' ''PASSED'' ''SMS.f09.X''
                         ''./case.build --model-only'' [] [])"
      by (simp add: run_catch_exceptions_def model_build_phase_def eval_two_tests
            shell_cmd_for_phase.simps quiet_externals_def)
    have d: "get_test_data s1 ''SMS.f09.X'' = Inr (MODEL_BUILD_PHASE, TEST_PEND_STATUS)"
      and fl: "\<not> no_build s1" "\<not> no_run s1" "\<not> no_batch s1"
      and grp: "get_build_group s1 ''SMS.f09.X'' = Inr (True, ''SMS.f09.X'', ?g)"
      by (simp_all add: s1 eval_two_tests log_output_def)
    define cs where "cs = set_test_data
                  (if True
                   then set_test_data s1 ''SMS.f09.X'' (MODEL_BUILD_PHASE, TEST_PASS_STATUS)
                   else update_test_status_file quiet_externals
                          (set_test_data s1 ''SMS.f09.X'' (MODEL_BUILD_PHASE, TEST_PASS_STATUS))
                          ''SMS.f09.X'' MODEL_BUILD_PHASE TEST_PASS_STATUS)
                  ''SMS.f09.X'' (RUN_PHASE, TEST_PEND_STATUS)"
    have "\<exists>s7. run_phase quiet_externals ''SMS.f09.X'' cs = Some (Returned True [], s7)"
      by (simp add: run_phase_def quiet_externals_def shell_cmd_for_phase.simps)
    then obtain s7 where
      r7: "run_phase quiet_externals ''SMS.f09.X'' cs = Some (Returned True [], s7)"
      by blast
    from th [OF run d fl grp cs_def, THEN conjunct2, THEN conjunct2, THEN conjunct2,
             rule_format, OF r7]
    show ?thesis by auto
  qed
  have two: "map_option (\<lambda>(e, s'). (e, get_test_data s' ''ERS.f09.X''))
     (consumer quiet_externals ''ERS.f09.X'' MODEL_BUILD_PHASE (model_build_phase quiet_externals) ?b)
     = Some (None, Inr (RUN_PHASE, TEST_PEND_STATUS))"
  proof -
    obtain s1 where
      run: "run_catch_exceptions quiet_externals ''ERS.f09.X'' MODEL_BUILD_PHASE
              (model_build_phase quiet_externals) ?b = Some ((True, []), s1)"
      and s1: "s1 = ?b\<lparr>post_built := [''ERS.f09.X'']\<rparr>"
      by (simp add: run_catch_exceptions_def model_build_phase_def eval_two_tests
            get_test_status_def two_tests_def)
    have d: "get_test_data s1 ''ERS.f09.X'' = Inr (MODEL_BUILD_PHASE, TEST_PEND_STATUS)"
      and fl: "\<not> no_build s1" "\<not> no_run s1" "\<not> no_batch s1"
      and grp: "get_build_group s1 ''ERS.f09.X'' = Inr (False, ''SMS.f09.X'', ?g)"
      by (simp_all add: s1 eval_two_tests)
    define cs where "cs = set_test_data
                  (if False
                   then set_test_data s1 ''ERS.f09.X'' (MODEL_BUILD_PHASE, TEST_PASS_STATUS)
                   else update_test_status_file quiet_externals
                          (set_test_data s1 ''ERS.f09.X'' (MODEL_BUILD_PHASE, TEST_PASS_STATUS))
                          ''ERS.f09.X'' MODEL_BUILD_PHASE TEST_PASS_STATUS)
                  ''ERS.f09.X'' (RUN_PHASE, TEST_PEND_STATUS)"
    have "\<exists>s7. run_phase quiet_externals ''ERS.f09.X'' cs = Some (Returned True [], s7)"
      by (simp add: run_phase_def quiet_externals_def shell_cmd_for_phase.simps)
    then obtain s7 where
      r7: "run_phase quiet_externals ''ERS.f09.X'' cs = Some (Returned True [], s7)"
      by blast
    from th [OF run d fl grp cs_def, THEN conjunct2, THEN conjunct2, THEN conjunct2,
             rule_format, OF r7]
    show ?thesis by auto
  qed
  show ?thesis using one two by blast
qed

subsection \<open>Who writes the status file\<close>

lemma model_build_active: "MODEL_BUILD_PHASE \<in> set (phases s) \<Longrightarrow> \<not> no_build s"
  by (auto simp: eval_phases Let_def split: if_splits)

text \<open>
  Claim C6, as the code has it. Take the worker of a test that stands at \<open>(ph, PEND)\<close>,
  once its phase method has come back with \<open>success\<close> and left the status files as
  \<open>status_files s1\<close>. When the worker returns, or hands over to the chained \<open>RUN\<close>, the
  status files are \<open>w\<close>: the worker has written the outcome of \<open>ph\<close> to the test's file
  exactly if \<open>ph\<close> is \<open>CREATE_NEWCASE\<close> or \<open>XML\<close>, or the test is a follower and \<open>ph\<close> is
  \<open>SHAREDLIB_BUILD\<close> or \<open>MODEL_BUILD\<close>; for every other phase it has written nothing.
  The phase method \<open>_run_phase\<close> itself writes \<open>SUBMIT = PASS\<close> and \<open>RUN = PASS\<close> when the
  test has the option \<open>B\<close> and the run is skipped; without that option it leaves the
  status files alone.
\<close>

theorem worker_status_file_writes:
  assumes "run_catch_exceptions ext t ph m s = Some ((success, errors), s1)"
      and "get_test_data s1 t = Inr (ph, TEST_PEND_STATUS)"
      and "ph \<in> set (phases s1)"
      and "get_build_group s1 t = Inr (is_first_test, l, g)"
      and "w = (if ph \<in> set [CREATE_NEWCASE_PHASE, XML_PHASE]
                   \<or> (\<not> is_first_test \<and> ph \<in> set [SHAREDLIB_BUILD_PHASE, MODEL_BUILD_PHASE])
                then (status_files s1)
                       (t := ts_set_status ext (status_files s1 t) ph
                               (if success
                                then (if ph = RUN_PHASE \<and> \<not> no_batch s1
                                      then TEST_PEND_STATUS else TEST_PASS_STATUS)
                                else TEST_FAIL_STATUS)
                               NO_COMMENT)
                else status_files s1)"
  shows "(\<not> (success \<and> \<not> no_run s1 \<and> \<not> no_batch s1 \<and> ph = MODEL_BUILD_PHASE) \<longrightarrow>
            (\<exists>s'. consumer ext t ph m s = Some (None, s') \<and> status_files s' = w))
       \<and> (success \<and> \<not> no_run s1 \<and> \<not> no_batch s1 \<and> ph = MODEL_BUILD_PHASE \<longrightarrow>
            (\<exists>cs. consumer ext t ph m s = consumer ext t RUN_PHASE (run_phase ext) cs
                  \<and> status_files cs = w))
       \<and> (\<forall>opts. case_opts ext t = Some opts \<and> ''B'' \<in> set opts \<longrightarrow>
            (\<exists>s2. run_phase ext t s = Some (Returned True ''SKIPPED'', s2)
                  \<and> status_files s2 =
                      (status_files s)
                        (t := ts_set_status ext
                                (ts_set_status ext (status_files s t) SUBMIT_PHASE
                                   TEST_PASS_STATUS NO_COMMENT)
                                RUN_PHASE TEST_PASS_STATUS NO_COMMENT)))
       \<and> ((case case_opts ext t of None \<Rightarrow> True | Some opts \<Rightarrow> ''B'' \<notin> set opts) \<longrightarrow>
            (\<forall>r s2. run_phase ext t s = Some (r, s2) \<longrightarrow> status_files s2 = status_files s))"
proof -
  let ?st = "consumer_status s1 ph success"
  let ?s2 = "if ?st \<noteq> TEST_PEND_STATUS then set_test_data s1 t (ph, ?st) else s1"
  let ?s3 = "if (?st = TEST_PASS_STATUS \<or> ?st = TEST_PEND_STATUS) \<and> ph \<noteq> last (phases s1)
             then ?s2 else ?s2\<lparr>completed_tests := completed_tests ?s2 + 1\<rparr>"
  let ?s4 = "if consumer_writes_status_file is_first_test ph
             then update_test_status_file ext ?s3 t ph ?st else ?s3"
  let ?s5 = "if ph = XML_PHASE
             then ?s4\<lparr>readme_case := (readme_case ?s4)
                    (t := readme_case ?s4 t
                       @ [''Case Created using: '' @ join '' '' (sys_argv ext)])\<rparr>
             else ?s4"
  note after = consumer_after_phase [OF assms(1-4) refl refl refl refl refl]
  have w5: "status_files ?s5 = w"
    unfolding assms(5)
    by (auto simp: consumer_writes_status_file_def consumer_status_def
          update_test_status_file_def set_test_data_def)
  have a: "\<exists>s'. consumer ext t ph m s = Some (None, s') \<and> status_files s' = w"
    if "\<not> (success \<and> \<not> no_run s1 \<and> \<not> no_batch s1 \<and> ph = MODEL_BUILD_PHASE)"
  proof -
    have cond: "(success \<and> \<not> no_run s1 \<and> \<not> no_batch s1 \<and> ph = MODEL_BUILD_PHASE) = False"
      using that by simp
    have "consumer ext t ph m s = Some (None, ?s5)"
      by (subst after) (simp only: cond if_False)
    then show ?thesis using w5 by blast
  qed
  have b: "\<exists>cs. consumer ext t ph m s = consumer ext t RUN_PHASE (run_phase ext) cs
                \<and> status_files cs = w"
    if chain: "success \<and> \<not> no_run s1 \<and> \<not> no_batch s1 \<and> ph = MODEL_BUILD_PHASE"
  proof -
    have nb: "\<not> no_build s1"
      using assms(3) chain model_build_active by blast
    obtain i where i: "list_index (phases s1) MODEL_BUILD_PHASE = Some i"
                      "list_index (phases s1) RUN_PHASE = Some (Suc i)"
      using model_build_then_run(1) [of s1] nb chain by blast
    have st: "?st = TEST_PASS_STATUS"
      using chain by (simp add: consumer_status_def)
    have d5: "get_test_data ?s5 t = Inr (MODEL_BUILD_PHASE, TEST_PASS_STATUS)"
      using chain st
      by (auto simp: get_test_data_def set_test_data_def update_test_status_file_def
            update_conv')
    have p5: "phases ?s5 = phases s1"
      by (auto simp: phases_def set_test_data_def update_test_status_file_def)
    have upd: "update_test_status ?s5 t RUN_PHASE TEST_PEND_STATUS
                 = Inr (set_test_data ?s5 t (RUN_PHASE, TEST_PEND_STATUS))"
      by (rule update_test_status_next [OF d5, of i]) (simp_all only: p5 i)
    have cond: "(success \<and> \<not> no_run s1 \<and> \<not> no_batch s1 \<and> ph = MODEL_BUILD_PHASE) = True"
      using chain by simp
    have "consumer ext t ph m s
            = consumer ext t RUN_PHASE (run_phase ext)
                (set_test_data ?s5 t (RUN_PHASE, TEST_PEND_STATUS))"
      by (subst after) (simp only: cond if_True upd sum.case)
    moreover have "status_files (set_test_data ?s5 t (RUN_PHASE, TEST_PEND_STATUS)) = w"
      using w5 by (simp only: flags_set_test_data)
    ultimately show ?thesis by blast
  qed
  have c: "\<exists>s2. run_phase ext t s = Some (Returned True ''SKIPPED'', s2)
                  \<and> status_files s2 =
                      (status_files s)
                        (t := ts_set_status ext
                                (ts_set_status ext (status_files s t) SUBMIT_PHASE
                                   TEST_PASS_STATUS NO_COMMENT)
                                RUN_PHASE TEST_PASS_STATUS NO_COMMENT)"
    if "case_opts ext t = Some opts \<and> ''B'' \<in> set opts" for opts
    using that by (simp add: run_phase_def update_test_status_file_def log_output_def)
  have e: "status_files s2 = status_files s"
    if nob: "case case_opts ext t of None \<Rightarrow> True | Some opts \<Rightarrow> ''B'' \<notin> set opts"
      and r: "run_phase ext t s = Some (r, s2)" for r s2
  proof -
    have "\<not> (case case_opts ext t of None \<Rightarrow> False | Some opts \<Rightarrow> ''B'' \<in> set opts)"
      using nob by (simp split: option.splits)
    then obtain y where y: "shell_cmd_for_phase ext t (submit_cmd s) RUN_PHASE s = Some y"
        and s2: "s2 = snd y"
      using r by (auto simp: run_phase_def split: option.splits)
    show ?thesis using shell_cmd_for_phase_frame [OF y] s2 by simp
  qed
  show ?thesis using a b c e by blast
qed

text \<open>
  On a machine where every command succeeds: the worker of the leader's \<open>XML\<close> writes
  \<open>XML = PASS\<close>; the worker of the leader's \<open>SETUP\<close> writes nothing; and the \<open>RUN\<close>
  method of a test with the option \<open>B\<close> writes \<open>SUBMIT = PASS\<close> and \<open>RUN = PASS\<close>.
\<close>

theorem worker_status_file_writes_witness:
  "map_option (\<lambda>(e, s'). (e, status_files s' ''SMS.f09.X''))
     (consumer quiet_externals ''SMS.f09.X'' XML_PHASE (xml_phase quiet_externals)
        (two_tests (XML_PHASE, TEST_PEND_STATUS) (TEST_START, TEST_PASS_STATUS)))
     = Some (None, [(XML_PHASE, TEST_PASS_STATUS, NO_COMMENT)])
   \<and> map_option (\<lambda>(e, s'). (e, status_files s' ''SMS.f09.X''))
     (consumer quiet_externals ''SMS.f09.X'' SETUP_PHASE (setup_phase quiet_externals)
        (two_tests (SETUP_PHASE, TEST_PEND_STATUS) (TEST_START, TEST_PASS_STATUS)))
     = Some (None, [])
   \<and> map_option (\<lambda>(r, s'). (r, status_files s' ''SMS_B.f09.X''))
     (run_phase b_opt_externals ''SMS_B.f09.X''
        (one_test ''SMS_B.f09.X'' (RUN_PHASE, TEST_PEND_STATUS)))
     = Some (Returned True ''SKIPPED'',
             [(SUBMIT_PHASE, TEST_PASS_STATUS, NO_COMMENT), (RUN_PHASE, TEST_PASS_STATUS, NO_COMMENT)])"
proof -
  let ?a = "two_tests (XML_PHASE, TEST_PEND_STATUS) (TEST_START, TEST_PASS_STATUS)"
  let ?b = "two_tests (SETUP_PHASE, TEST_PEND_STATUS) (TEST_START, TEST_PASS_STATUS)"
  let ?c = "one_test ''SMS_B.f09.X'' (RUN_PHASE, TEST_PEND_STATUS)"
  let ?g = "[''SMS.f09.X'', ''ERS.f09.X'']"
  note th = worker_status_file_writes
  have one: "map_option (\<lambda>(e, s'). (e, status_files s' ''SMS.f09.X''))
     (consumer quiet_externals ''SMS.f09.X'' XML_PHASE (xml_phase quiet_externals) ?a)
     = Some (None, [(XML_PHASE, TEST_PASS_STATUS, NO_COMMENT)])"
  proof -
    obtain s1 where
      run: "run_catch_exceptions quiet_externals ''SMS.f09.X'' XML_PHASE
              (xml_phase quiet_externals) ?a = Some ((True, []), s1)"
      and s1: "s1 = ?a\<lparr>build_group_exeroots :=
                        (build_group_exeroots ?a)(?g := Some ''/scratch/SMS.f09.X/bld'')\<rparr>"
      by (simp add: run_catch_exceptions_def xml_phase_def eval_two_tests quiet_externals_def)
    have d: "get_test_data s1 ''SMS.f09.X'' = Inr (XML_PHASE, TEST_PEND_STATUS)"
      and inph: "XML_PHASE \<in> set (phases s1)"
      and grp: "get_build_group s1 ''SMS.f09.X'' = Inr (True, ''SMS.f09.X'', ?g)"
      and files: "status_files s1 ''SMS.f09.X'' = []"
      by (simp_all add: s1 eval_two_tests eval_phases)
    from th [OF run d inph grp refl, THEN conjunct1, rule_format]
    obtain s' where
      "consumer quiet_externals ''SMS.f09.X'' XML_PHASE (xml_phase quiet_externals) ?a
         = Some (None, s')"
      "status_files s' ''SMS.f09.X''
         = ts_set_status quiet_externals (status_files s1 ''SMS.f09.X'') XML_PHASE
             TEST_PASS_STATUS NO_COMMENT"
      by auto
    then show ?thesis
      by (simp add: files quiet_externals_def store_write_def)
  qed
  have two: "map_option (\<lambda>(e, s'). (e, status_files s' ''SMS.f09.X''))
     (consumer quiet_externals ''SMS.f09.X'' SETUP_PHASE (setup_phase quiet_externals) ?b)
     = Some (None, [])"
  proof -
    obtain s1 where
      run: "run_catch_exceptions quiet_externals ''SMS.f09.X'' SETUP_PHASE
              (setup_phase quiet_externals) ?b = Some ((True, []), s1)"
      and s1: "s1 = (log_output (?b\<lparr>cmd_calls := Suc 0\<rparr>) ''SMS.f09.X''
                       (phase_log_message ''SETUP'' ''PASSED'' ''SMS.f09.X'' ''./case.setup'' [] []))
                    \<lparr>cmd_calls := Suc (Suc 0)\<rparr>"
      by (simp add: run_catch_exceptions_def setup_phase_def run_cmpgen_namelists_def
            two_tests_def shell_cmd_for_phase.simps quiet_externals_def log_output_def)
    have d: "get_test_data s1 ''SMS.f09.X'' = Inr (SETUP_PHASE, TEST_PEND_STATUS)"
      and inph: "SETUP_PHASE \<in> set (phases s1)"
      and grp: "get_build_group s1 ''SMS.f09.X'' = Inr (True, ''SMS.f09.X'', ?g)"
      and files: "status_files s1 ''SMS.f09.X'' = []"
      by (simp_all add: s1 eval_two_tests eval_phases log_output_def)
    from th [OF run d inph grp refl, THEN conjunct1, rule_format]
    obtain s' where
      "consumer quiet_externals ''SMS.f09.X'' SETUP_PHASE (setup_phase quiet_externals) ?b
         = Some (None, s')"
      "status_files s' = status_files s1"
      by auto
    then show ?thesis
      by (simp add: files)
  qed
  have three: "map_option (\<lambda>(r, s'). (r, status_files s' ''SMS_B.f09.X''))
     (run_phase b_opt_externals ''SMS_B.f09.X'' ?c)
     = Some (Returned True ''SKIPPED'',
             [(SUBMIT_PHASE, TEST_PASS_STATUS, NO_COMMENT), (RUN_PHASE, TEST_PASS_STATUS, NO_COMMENT)])"
  proof -
    let ?gb = "[''SMS_B.f09.X'']"
    obtain s1 where
      run: "run_catch_exceptions b_opt_externals ''SMS_B.f09.X'' RUN_PHASE
              (run_phase b_opt_externals) ?c = Some ((True, ''SKIPPED''), s1)"
      and s1: "s1 = update_test_status_file b_opt_externals
                      (update_test_status_file b_opt_externals
                         (log_output ?c ''SMS_B.f09.X''
                            (''RUN SKIPPED for test '' @ sq @ ''SMS_B.f09.X'' @ sq))
                         ''SMS_B.f09.X'' SUBMIT_PHASE TEST_PASS_STATUS)
                      ''SMS_B.f09.X'' RUN_PHASE TEST_PASS_STATUS"
      by (simp add: run_catch_exceptions_def run_phase_def b_opt_externals_def quiet_externals_def)
    have d: "get_test_data s1 ''SMS_B.f09.X'' = Inr (RUN_PHASE, TEST_PEND_STATUS)"
      and inph: "RUN_PHASE \<in> set (phases s1)"
      and grp: "get_build_group s1 ''SMS_B.f09.X'' = Inr (True, ''SMS_B.f09.X'', ?gb)"
      by (simp_all add: s1 one_test_def eval_two_tests eval_phases
            update_test_status_file_def log_output_def)
    have opts: "case_opts b_opt_externals ''SMS_B.f09.X'' = Some [''B''] \<and> ''B'' \<in> set [''B'']"
      by (simp add: b_opt_externals_def quiet_externals_def)
    have files: "status_files ?c ''SMS_B.f09.X'' = []"
      by (simp add: one_test_def two_tests_def)
    from th [OF run d inph grp refl, THEN conjunct2, THEN conjunct2, THEN conjunct1,
             rule_format, OF opts]
    obtain s2 where
      "run_phase b_opt_externals ''SMS_B.f09.X'' ?c = Some (Returned True ''SKIPPED'', s2)"
      "status_files s2 =
         (status_files ?c)
           (''SMS_B.f09.X'' := ts_set_status b_opt_externals
                   (ts_set_status b_opt_externals (status_files ?c ''SMS_B.f09.X'')
                      SUBMIT_PHASE TEST_PASS_STATUS NO_COMMENT)
                   RUN_PHASE TEST_PASS_STATUS NO_COMMENT)"
      by blast
    then show ?thesis
      by (simp add: files b_opt_externals_def quiet_externals_def store_write_def)
  qed
  show ?thesis using one two three by blast
qed

text \<open>
  The claim as the spec words it leaves the status file of every other phase to the
  external command. The leader \<open>''SMS_B.f09.X''\<close> has the option \<open>B\<close>; the worker of its
  \<open>RUN\<close> starts no command, and the status file of the test, empty before, holds
  \<open>SUBMIT = PASS\<close> and \<open>RUN = PASS\<close> afterwards, written by the scheduler.
\<close>

theorem skipped_run_writes_status_file:
  "get_build_group (one_test ''SMS_B.f09.X'' (RUN_PHASE, TEST_PEND_STATUS)) ''SMS_B.f09.X''
     = Inr (True, ''SMS_B.f09.X'', [''SMS_B.f09.X''])
   \<and> status_files (one_test ''SMS_B.f09.X'' (RUN_PHASE, TEST_PEND_STATUS)) ''SMS_B.f09.X'' = []
   \<and> map_option (\<lambda>(e, s'). (e, status_files s' ''SMS_B.f09.X'', cmd_calls s'))
        (consumer b_opt_externals ''SMS_B.f09.X'' RUN_PHASE (run_phase b_opt_externals)
           (one_test ''SMS_B.f09.X'' (RUN_PHASE, TEST_PEND_STATUS)))
      = Some (None,
              [(SUBMIT_PHASE, TEST_PASS_STATUS, NO_COMMENT), (RUN_PHASE, TEST_PASS_STATUS, NO_COMMENT)],
              0)"
  by (subst consumer.simps)
     (simp add: eval_consumer run_phase_def b_opt_externals_def quiet_externals_def
        one_test_def eval_two_tests eval_phases store_write_def)

subsection \<open>Resuming from the status files\<close>

lemma replay_skip:
  assumes "ph \<notin> set (core_phases ext) \<or> (ph = SUBMIT_PHASE \<and> st \<notin> set [TEST_PEND_STATUS, TEST_FAIL_STATUS])"
  shows "replay ext t ((ph, st) # rest) ts s = replay ext t rest ts s"
  using assms by auto

lemma replay_stop_here:
  assumes "ph \<in> set (core_phases ext)" and "st \<in> set [TEST_PEND_STATUS, TEST_FAIL_STATUS]"
  shows "replay ext t ((ph, st) # post) ts s =
           Inr (if st = TEST_FAIL_STATUS
                then ts_set_status ext ts ph TEST_PEND_STATUS TEST_RERUN_COMMENT else ts, s)"
  using assms by auto

lemma replay_pass_step:
  assumes "ph \<in> set (core_phases ext)" and "ph \<noteq> SUBMIT_PHASE"
      and "get_test_data s t = Inr (old_phase, TEST_PASS_STATUS)"
      and "list_index (phases s) old_phase = Some i"
      and "list_index (phases s) ph = Some (Suc i)"
  shows "replay ext t ((ph, TEST_PASS_STATUS) # rest) ts s =
           replay ext t rest ts (set_test_data s t (ph, TEST_PASS_STATUS))"
proof -
  have u1: "update_test_status s t ph TEST_PEND_STATUS
              = Inr (set_test_data s t (ph, TEST_PEND_STATUS))"
    by (rule update_test_status_next [OF assms(3,4,5)])
  have "ph \<in> set (phases s)"
    using assms(5) by (auto simp: list_index_in_set)
  then have u2: "update_test_status (set_test_data s t (ph, TEST_PEND_STATUS)) t ph TEST_PASS_STATUS
              = Inr (set_test_data (set_test_data s t (ph, TEST_PEND_STATUS)) t
                       (ph, TEST_PASS_STATUS))"
    by (intro update_test_status_done) simp_all
  have same: "set_test_data (set_test_data s t (ph, TEST_PEND_STATUS)) t (ph, TEST_PASS_STATUS)
                = set_test_data s t (ph, TEST_PASS_STATUS)"
    by (simp add: set_test_data_def)
  show ?thesis
    using assms(1,2) u1 u2 same by simp
qed

text \<open>Records before the stopping point never touch the store, and what comes after
  the stopping point is not read.\<close>

lemma replay_stops_at_first:
  assumes "list_all (\<lambda>(p, q). \<not> (p \<in> set (core_phases ext)
                                  \<and> q \<in> set [TEST_PEND_STATUS, TEST_FAIL_STATUS])) pre"
      and "ph \<in> set (core_phases ext)" and "st \<in> set [TEST_PEND_STATUS, TEST_FAIL_STATUS]"
  shows "replay ext t (pre @ (ph, st) # post) ts s =
           (case replay ext t pre ts s of
              Inl e \<Rightarrow> Inl e
            | Inr (ts', s') \<Rightarrow>
                Inr (if st = TEST_FAIL_STATUS
                     then ts_set_status ext ts ph TEST_PEND_STATUS TEST_RERUN_COMMENT else ts, s'))
         \<and> (\<forall>ts' s'. replay ext t pre ts s = Inr (ts', s') \<longrightarrow> ts' = ts)"
  using assms(1)
proof (induction pre arbitrary: s)
  case Nil
  then show ?case using replay_stop_here [OF assms(2,3)] by simp
next
  case (Cons r pre)
  obtain p q where r: "r = (p, q)" by (cases r)
  have rest: "list_all (\<lambda>(p, q). \<not> (p \<in> set (core_phases ext)
                                  \<and> q \<in> set [TEST_PEND_STATUS, TEST_FAIL_STATUS])) pre"
    using Cons.prems by simp
  have nostop: "\<not> (p \<in> set (core_phases ext) \<and> q \<in> set [TEST_PEND_STATUS, TEST_FAIL_STATUS])"
    using Cons.prems r by simp
  note IH = Cons.IH [OF rest]
  show ?case
  proof (cases "p \<in> set (core_phases ext) \<and> p \<noteq> SUBMIT_PHASE")
    case False
    then have skip: "replay ext t ((p, q) # xs) ts s = replay ext t xs ts s" for xs
      using nostop by auto
    show ?thesis
      unfolding r append_Cons skip by (rule IH)
  next
    case True
    show ?thesis
    proof (cases "update_test_status s t p TEST_PEND_STATUS")
      case (Inl e)
      then show ?thesis using True nostop r by auto
    next
      case u1: (Inr s1)
      show ?thesis
      proof (cases "update_test_status s1 t p q")
        case (Inl e)
        then show ?thesis using True nostop r u1 by auto
      next
        case u2: (Inr s2)
        have step: "replay ext t ((p, q) # xs) ts s = replay ext t xs ts s2" for xs
          using True nostop u1 u2 by auto
        show ?thesis
          unfolding r append_Cons step by (rule IH)
      qed
    qed
  qed
qed

lemma set_test_data_twice [simp]:
  "set_test_data (set_test_data s t d) t d' = set_test_data s t d'"
  by (simp add: set_test_data_def)

text \<open>
  A stretch of records without a stopping point, in which every record of a core phase
  is a \<open>PASS\<close> and the core phases other than \<open>SUBMIT\<close> are, in order, the \<open>k\<close> phases that
  follow position \<open>j\<close> of the active list: replayed from a test that passed the phase at
  \<open>j\<close>, it leaves the test as having passed the phase at \<open>j + k\<close>, and the store as it was.
\<close>

lemma replay_walk:
  assumes "list_all (\<lambda>(p, q). p \<in> set (core_phases ext) \<longrightarrow> q = TEST_PASS_STATUS) pre"
      and "map fst (filter (\<lambda>(p, q). p \<in> set (core_phases ext) \<and> p \<noteq> SUBMIT_PHASE) pre)
             = take k (drop (Suc j) (phases s))"
      and "j + k < length (phases s)"
      and "get_test_data s t = Inr (phases s ! j, TEST_PASS_STATUS)"
  shows "replay ext t pre ts s =
           Inr (ts, if k = 0 then s
                    else set_test_data s t (phases s ! (j + k), TEST_PASS_STATUS))"
  using assms
proof (induction pre arbitrary: s j k)
  case Nil
  then have "k = 0" by (cases k) auto
  then show ?case by simp
next
  case (Cons r pre)
  obtain p q where r: "r = (p, q)" by (cases r)
  have all: "list_all (\<lambda>(p, q). p \<in> set (core_phases ext) \<longrightarrow> q = TEST_PASS_STATUS) pre"
    and q: "p \<in> set (core_phases ext) \<longrightarrow> q = TEST_PASS_STATUS"
    using Cons.prems(1) r by simp_all
  show ?case
  proof (cases "p \<in> set (core_phases ext) \<and> p \<noteq> SUBMIT_PHASE")
    case False
    have skip: "replay ext t ((p, q) # pre) ts s = replay ext t pre ts s"
      using False q by auto
    have ord: "map fst (filter (\<lambda>(p, q). p \<in> set (core_phases ext) \<and> p \<noteq> SUBMIT_PHASE) pre)
                 = take k (drop (Suc j) (phases s))"
      using Cons.prems(2) False r by simp
    show ?thesis
      unfolding r skip by (rule Cons.IH [OF all ord Cons.prems(3,4)])
  next
    case True
    then have qp: "q = TEST_PASS_STATUS" using q by simp
    have cons: "p # map fst (filter (\<lambda>(p, q). p \<in> set (core_phases ext) \<and> p \<noteq> SUBMIT_PHASE) pre)
                  = take k (drop (Suc j) (phases s))"
      using Cons.prems(2) True r by simp
    then obtain k' where k: "k = Suc k'"
      by (cases k) auto
    have len: "Suc j < length (phases s)"
      using Cons.prems(3) k by simp
    have dr: "drop (Suc j) (phases s) = phases s ! Suc j # drop (Suc (Suc j)) (phases s)"
      using Cons_nth_drop_Suc [OF len] by simp
    have p: "p = phases s ! Suc j"
      and ord: "map fst (filter (\<lambda>(p, q). p \<in> set (core_phases ext) \<and> p \<noteq> SUBMIT_PHASE) pre)
                  = take k' (drop (Suc (Suc j)) (phases s))"
      using cons unfolding k dr by simp_all
    have ij: "list_index (phases s) (phases s ! j) = Some j"
      using list_index_nth [OF distinct_phases, of j s] len by simp
    have ip: "list_index (phases s) p = Some (Suc j)"
      unfolding p using list_index_nth [OF distinct_phases len] .
    let ?s1 = "set_test_data s t (p, TEST_PASS_STATUS)"
    have step: "replay ext t ((p, q) # pre) ts s = replay ext t pre ts ?s1"
      unfolding qp using True replay_pass_step [OF _ _ Cons.prems(4) ij ip] by blast
    have d1: "get_test_data ?s1 t = Inr (phases ?s1 ! Suc j, TEST_PASS_STATUS)"
      using p by simp
    have ord1: "map fst (filter (\<lambda>(p, q). p \<in> set (core_phases ext) \<and> p \<noteq> SUBMIT_PHASE) pre)
                  = take k' (drop (Suc (Suc j)) (phases ?s1))"
      using ord by simp
    have len1: "Suc j + k' < length (phases ?s1)"
      using Cons.prems(3) k by simp
    have "replay ext t pre ts ?s1 =
            Inr (ts, if k' = 0 then ?s1
                     else set_test_data ?s1 t (phases ?s1 ! (Suc j + k'), TEST_PASS_STATUS))"
      by (rule Cons.IH [OF all ord1 len1 d1])
    then show ?thesis
      unfolding r step using k p by auto
  qed
qed

lemma phases_start: "phases s ! 0 = TEST_START"
  by (simp add: eval_phases Let_def)

text \<open>
  Claim C3. Take a test at \<open>(INIT, PASS)\<close>, as \<open>__init__\<close> creates it, and let \<open>ts\<close> be its
  status file, with \<open>SHAREDLIB_BUILD\<close> set to \<open>PEND\<close> first if \<open>force_rebuild\<close> is given. Let
  the records of \<open>ts\<close> begin with a stretch \<open>pre\<close> in which every core phase is a \<open>PASS\<close> and
  the core phases other than \<open>SUBMIT\<close> are, in order, the first \<open>k\<close> phases of the pipeline
  (\<open>SUBMIT\<close> records and records of other phases may stand anywhere in between).
  \<^item> If \<open>pre\<close> is the whole file, the replay leaves the test as having passed the \<open>k\<close>-th
    phase and the file as \<open>ts\<close>.
  \<^item> If \<open>pre\<close> is followed by a record of a core phase with \<open>PEND\<close> or \<open>FAIL\<close>, the
    walk stops there, whatever follows: the test is left as having passed the \<open>k\<close>-th
    phase, and the file is \<open>ts\<close>, with that phase set to \<open>PEND\<close> with the rerun comment if
    the record was a \<open>FAIL\<close>.
  \<^item> A \<open>SUBMIT\<close> record that does not stop the walk is passed over: the in-memory state
    is not touched.
\<close>

theorem use_existing_replays_status_file:
  assumes "get_test_data s t = Inr (TEST_START, TEST_PASS_STATUS)"
      and "ts = (if force_rebuild
                 then ts_set_status ext (status_files s t) SHAREDLIB_BUILD_PHASE
                        TEST_PEND_STATUS NO_COMMENT
                 else status_files s t)"
      and "list_all (\<lambda>(p, q). p \<in> set (core_phases ext) \<longrightarrow> q = TEST_PASS_STATUS) pre"
      and "map fst (filter (\<lambda>(p, q). p \<in> set (core_phases ext) \<and> p \<noteq> SUBMIT_PHASE) pre)
             = take k (drop 1 (phases s))"
      and "k < length (phases s)"
      and "s' = (if k = 0 then s else set_test_data s t (phases s ! k, TEST_PASS_STATUS))"
  shows "(ts_iter ext ts = pre \<longrightarrow>
            use_existing_test ext force_rebuild s t
              = Inr (s'\<lparr>status_files := (status_files s)(t := ts)\<rparr>))
       \<and> (\<forall>ph st post.
            ts_iter ext ts = pre @ (ph, st) # post \<and> ph \<in> set (core_phases ext)
            \<and> st \<in> set [TEST_PEND_STATUS, TEST_FAIL_STATUS] \<longrightarrow>
            use_existing_test ext force_rebuild s t
              = Inr (s'\<lparr>status_files := (status_files s)
                         (t := if st = TEST_FAIL_STATUS
                               then ts_set_status ext ts ph TEST_PEND_STATUS TEST_RERUN_COMMENT
                               else ts)\<rparr>))
       \<and> (\<forall>st rest ts1 s1.
            st \<notin> set [TEST_PEND_STATUS, TEST_FAIL_STATUS] \<longrightarrow>
            replay ext t ((SUBMIT_PHASE, st) # rest) ts1 s1 = replay ext t rest ts1 s1)"
proof -
  have d: "get_test_data s t = Inr (phases s ! 0, TEST_PASS_STATUS)"
    using assms(1) by (simp add: phases_start)
  have ord: "map fst (filter (\<lambda>(p, q). p \<in> set (core_phases ext) \<and> p \<noteq> SUBMIT_PHASE) pre)
               = take k (drop (Suc 0) (phases s))"
    using assms(4) by simp
  have len: "0 + k < length (phases s)"
    using assms(5) by simp
  have walk: "replay ext t pre ts s = Inr (ts, s')"
    using replay_walk [OF assms(3) ord len d, of ts] assms(6) by simp
  have files: "status_files s' = status_files s"
    using assms(6) by simp
  have nostop: "list_all (\<lambda>(p, q). \<not> (p \<in> set (core_phases ext)
                                  \<and> q \<in> set [TEST_PEND_STATUS, TEST_FAIL_STATUS])) pre"
    using assms(3) by (induction pre) auto
  have a: "use_existing_test ext force_rebuild s t
              = Inr (s'\<lparr>status_files := (status_files s)(t := ts)\<rparr>)"
    if "ts_iter ext ts = pre"
    using that walk files assms(2) by (simp add: use_existing_test_def Let_def)
  have b: "use_existing_test ext force_rebuild s t
              = Inr (s'\<lparr>status_files := (status_files s)
                         (t := if st = TEST_FAIL_STATUS
                               then ts_set_status ext ts ph TEST_PEND_STATUS TEST_RERUN_COMMENT
                               else ts)\<rparr>)"
    if it: "ts_iter ext ts = pre @ (ph, st) # post" and core: "ph \<in> set (core_phases ext)"
      and st: "st \<in> set [TEST_PEND_STATUS, TEST_FAIL_STATUS]" for ph st post
  proof -
    have "replay ext t (pre @ (ph, st) # post) ts s =
            Inr (if st = TEST_FAIL_STATUS
                 then ts_set_status ext ts ph TEST_PEND_STATUS TEST_RERUN_COMMENT else ts, s')"
      using replay_stops_at_first [OF nostop core st, of t post ts s] walk by simp
    then show ?thesis
      using it files assms(2) by (simp add: use_existing_test_def Let_def)
  qed
  have c: "replay ext t ((SUBMIT_PHASE, st) # rest) ts1 s1 = replay ext t rest ts1 s1"
    if "st \<notin> set [TEST_PEND_STATUS, TEST_FAIL_STATUS]" for st rest ts1 s1
    using that by (intro replay_skip) simp
  show ?thesis using a b c by blast
qed

text \<open>
  A file on which the shared-library build failed, resumed with \<open>force_rebuild\<close>: the
  test is left at \<open>(SETUP, PASS)\<close> and the failed build is set to \<open>PEND\<close> with the rerun
  comment, after the pre-mark. A file of a finished test, with its \<open>SUBMIT\<close> record: the
  test is left at \<open>(RUN, PASS)\<close> and the file is not written.
\<close>

theorem use_existing_replays_status_file_witness:
  "map_sum id (\<lambda>s'. (get_test_data s' ''SMS.f09.X'', status_files s' ''SMS.f09.X''))
     (use_existing_test quiet_externals True
        (resumed [(CREATE_NEWCASE_PHASE, TEST_PASS_STATUS, NO_COMMENT),
                  (XML_PHASE, TEST_PASS_STATUS, NO_COMMENT),
                  (SETUP_PHASE, TEST_PASS_STATUS, NO_COMMENT),
                  (OTHER_PHASE ''NLCOMP'', TEST_FAIL_STATUS, NO_COMMENT),
                  (SHAREDLIB_BUILD_PHASE, TEST_FAIL_STATUS, NO_COMMENT),
                  (MODEL_BUILD_PHASE, TEST_PEND_STATUS, NO_COMMENT)])
        ''SMS.f09.X'')
     = Inr (Inr (SETUP_PHASE, TEST_PASS_STATUS),
            [(CREATE_NEWCASE_PHASE, TEST_PASS_STATUS, NO_COMMENT),
             (XML_PHASE, TEST_PASS_STATUS, NO_COMMENT),
             (SETUP_PHASE, TEST_PASS_STATUS, NO_COMMENT),
             (OTHER_PHASE ''NLCOMP'', TEST_FAIL_STATUS, NO_COMMENT),
             (SHAREDLIB_BUILD_PHASE, TEST_FAIL_STATUS, NO_COMMENT),
             (MODEL_BUILD_PHASE, TEST_PEND_STATUS, NO_COMMENT),
             (SHAREDLIB_BUILD_PHASE, TEST_PEND_STATUS, NO_COMMENT),
             (SHAREDLIB_BUILD_PHASE, TEST_PEND_STATUS, TEST_RERUN_COMMENT)])
   \<and> map_sum id (\<lambda>s'. (get_test_data s' ''SMS.f09.X'', status_files s' ''SMS.f09.X''))
     (use_existing_test quiet_externals False
        (resumed [(CREATE_NEWCASE_PHASE, TEST_PASS_STATUS, NO_COMMENT),
                  (XML_PHASE, TEST_PASS_STATUS, NO_COMMENT),
                  (SETUP_PHASE, TEST_PASS_STATUS, NO_COMMENT),
                  (SHAREDLIB_BUILD_PHASE, TEST_PASS_STATUS, NO_COMMENT),
                  (MODEL_BUILD_PHASE, TEST_PASS_STATUS, NO_COMMENT),
                  (SUBMIT_PHASE, TEST_PASS_STATUS, NO_COMMENT),
                  (RUN_PHASE, TEST_PASS_STATUS, NO_COMMENT)])
        ''SMS.f09.X'')
     = Inr (Inr (RUN_PHASE, TEST_PASS_STATUS),
            [(CREATE_NEWCASE_PHASE, TEST_PASS_STATUS, NO_COMMENT),
             (XML_PHASE, TEST_PASS_STATUS, NO_COMMENT),
             (SETUP_PHASE, TEST_PASS_STATUS, NO_COMMENT),
             (SHAREDLIB_BUILD_PHASE, TEST_PASS_STATUS, NO_COMMENT),
             (MODEL_BUILD_PHASE, TEST_PASS_STATUS, NO_COMMENT),
             (SUBMIT_PHASE, TEST_PASS_STATUS, NO_COMMENT),
             (RUN_PHASE, TEST_PASS_STATUS, NO_COMMENT)])"
proof -
  let ?f1 = "[(CREATE_NEWCASE_PHASE, TEST_PASS_STATUS, NO_COMMENT),
              (XML_PHASE, TEST_PASS_STATUS, NO_COMMENT),
              (SETUP_PHASE, TEST_PASS_STATUS, NO_COMMENT),
              (OTHER_PHASE ''NLCOMP'', TEST_FAIL_STATUS, NO_COMMENT),
              (SHAREDLIB_BUILD_PHASE, TEST_FAIL_STATUS, NO_COMMENT),
              (MODEL_BUILD_PHASE, TEST_PEND_STATUS, NO_COMMENT)]"
  let ?f2 = "[(CREATE_NEWCASE_PHASE, TEST_PASS_STATUS, NO_COMMENT),
              (XML_PHASE, TEST_PASS_STATUS, NO_COMMENT),
              (SETUP_PHASE, TEST_PASS_STATUS, NO_COMMENT),
              (SHAREDLIB_BUILD_PHASE, TEST_PASS_STATUS, NO_COMMENT),
              (MODEL_BUILD_PHASE, TEST_PASS_STATUS, NO_COMMENT),
              (SUBMIT_PHASE, TEST_PASS_STATUS, NO_COMMENT),
              (RUN_PHASE, TEST_PASS_STATUS, NO_COMMENT)]"
  let ?pre1 = "[(CREATE_NEWCASE_PHASE, TEST_PASS_STATUS), (XML_PHASE, TEST_PASS_STATUS),
                (SETUP_PHASE, TEST_PASS_STATUS), (OTHER_PHASE ''NLCOMP'', TEST_FAIL_STATUS)]"
  let ?post1 = "[(MODEL_BUILD_PHASE, TEST_PEND_STATUS), (SHAREDLIB_BUILD_PHASE, TEST_PEND_STATUS)]"
  let ?pre2 = "store_read ?f2"
  let ?ts1 = "?f1 @ [(SHAREDLIB_BUILD_PHASE, TEST_PEND_STATUS, NO_COMMENT)]"
  note th = use_existing_replays_status_file
  have init: "get_test_data (resumed f) ''SMS.f09.X'' = Inr (TEST_START, TEST_PASS_STATUS)" for f
    by (simp add: resumed_def eval_two_tests)
  have ph: "phases (resumed f) = PHASES" for f
    by (simp add: resumed_def eval_phases two_tests_def)
  have files: "status_files (resumed f) ''SMS.f09.X'' = f" for f
    by (simp add: resumed_def)
  have ts1: "?ts1 = (if True
                     then ts_set_status quiet_externals (status_files (resumed ?f1) ''SMS.f09.X'')
                            SHAREDLIB_BUILD_PHASE TEST_PEND_STATUS NO_COMMENT
                     else status_files (resumed ?f1) ''SMS.f09.X'')"
    by (simp add: files quiet_externals_def store_write_def)
  have ts2: "?f2 = (if False
                    then ts_set_status quiet_externals (status_files (resumed ?f2) ''SMS.f09.X'')
                           SHAREDLIB_BUILD_PHASE TEST_PEND_STATUS NO_COMMENT
                    else status_files (resumed ?f2) ''SMS.f09.X'')"
    by (simp add: files)
  have all1: "list_all (\<lambda>(p, q). p \<in> set (core_phases quiet_externals) \<longrightarrow> q = TEST_PASS_STATUS)
                ?pre1"
    and ord1: "map fst (filter (\<lambda>(p, q). p \<in> set (core_phases quiet_externals)
                                          \<and> p \<noteq> SUBMIT_PHASE) ?pre1)
                 = take 3 (drop 1 (phases (resumed ?f1)))"
    and len1: "3 < length (phases (resumed ?f1))"
    by (simp_all add: ph PHASES_def quiet_externals_def)
  have all2: "list_all (\<lambda>(p, q). p \<in> set (core_phases quiet_externals) \<longrightarrow> q = TEST_PASS_STATUS)
                ?pre2"
    and ord2: "map fst (filter (\<lambda>(p, q). p \<in> set (core_phases quiet_externals)
                                          \<and> p \<noteq> SUBMIT_PHASE) ?pre2)
                 = take 6 (drop 1 (phases (resumed ?f2)))"
    and len2: "6 < length (phases (resumed ?f2))"
    by (simp_all add: ph PHASES_def quiet_externals_def store_read_def)
  have it1: "ts_iter quiet_externals ?ts1
               = ?pre1 @ (SHAREDLIB_BUILD_PHASE, TEST_FAIL_STATUS) # ?post1
             \<and> SHAREDLIB_BUILD_PHASE \<in> set (core_phases quiet_externals)
             \<and> TEST_FAIL_STATUS \<in> set [TEST_PEND_STATUS, TEST_FAIL_STATUS]"
    by (simp add: quiet_externals_def store_read_def)
  have it2: "ts_iter quiet_externals ?f2 = ?pre2"
    by (simp add: quiet_externals_def)
  have one: "use_existing_test quiet_externals True (resumed ?f1) ''SMS.f09.X''
      = Inr ((set_test_data (resumed ?f1) ''SMS.f09.X''
                (phases (resumed ?f1) ! 3, TEST_PASS_STATUS))
              \<lparr>status_files := (status_files (resumed ?f1))
                 (''SMS.f09.X'' := ts_set_status quiet_externals ?ts1 SHAREDLIB_BUILD_PHASE
                                     TEST_PEND_STATUS TEST_RERUN_COMMENT)\<rparr>)"
    using th [OF init ts1 all1 ord1 len1 refl, THEN conjunct2, THEN conjunct1, rule_format, OF it1]
    by simp
  have two: "use_existing_test quiet_externals False (resumed ?f2) ''SMS.f09.X''
      = Inr ((set_test_data (resumed ?f2) ''SMS.f09.X''
                (phases (resumed ?f2) ! 6, TEST_PASS_STATUS))
              \<lparr>status_files := (status_files (resumed ?f2))(''SMS.f09.X'' := ?f2)\<rparr>)"
    using th [OF init ts2 all2 ord2 len2 refl, THEN conjunct1, rule_format, OF it2]
    by simp
  show ?thesis
    unfolding one two
    by (simp add: eval_phases quiet_externals_def store_write_def get_test_data_def
          set_test_data_def resumed_def two_tests_def)
qed

end
